theory Spec2Isabelle
  imports Main "HOL-Library.AList"
begin

text \<open>
  A model of the two storage adapters, \<open>GitlabClient\<close> with \<open>GitlabFile\<close> and
  \<open>AlfrescoClient\<close> with \<open>AlfrescoFile\<close>: what each call returns, which calls of
  \<open>fetch\<close> it makes and which objects it changes. A call runs to completion before
  the next one starts. The chunk loop of the stream readers and the empty methods
  (\<open>cp\<close>, \<open>rename\<close>, \<open>mkdir\<close>, \<open>readdir\<close>, \<open>writer\<close>) are left out.
\<close>

section \<open>JavaScript values\<close>

text \<open>
  Values that travel through the two adapters. Numbers are the integer-valued ones
  (sizes, status codes) together with \<open>NaN\<close>; strings are lists of code units in
  the Latin-1 range. A parsed JSON document is a tree of these values; \<open>VDate v\<close>
  is the object \<open>new Date(v)\<close>, kept unevaluated.
\<close>

datatype jsval =
    VUndef
  | VNull
  | VBool bool
  | VNum int
  | VNaN
  | VStr string
  | VArr "jsval list"
  | VObj "(string \<times> jsval) list"
  | VDate jsval

text \<open>
  A property of an option object or of the ticket object holds a plain value or a
  reference to an object of the heap (the ticket slot).
\<close>

datatype optval = Val jsval | Ref nat

type_synonym obj = "string \<Rightarrow> optval option"

datatype error = TypeError | ReferenceError | SyntaxError | FetchError | Reason jsval

text \<open>
  What a call produces: a promise that resolves, a promise that rejects, or an
  exception thrown before any promise is returned.
\<close>

datatype 'a outcome = Resolved 'a | Rejected error | Thrown error

fun truthy :: "jsval \<Rightarrow> bool" where
  "truthy VUndef = False"
| "truthy VNull = False"
| "truthy (VBool b) = b"
| "truthy (VNum n) = (n \<noteq> 0)"
| "truthy VNaN = False"
| "truthy (VStr s) = (s \<noteq> [])"
| "truthy (VArr xs) = True"
| "truthy (VObj kvs) = True"
| "truthy (VDate v) = True"

fun truthy_opt :: "optval \<Rightarrow> bool" where
  "truthy_opt (Val v) = truthy v"
| "truthy_opt (Ref a) = True"

definition nullish :: "jsval \<Rightarrow> bool" where
  "nullish v = (v = VUndef \<or> v = VNull)"

text \<open>
  \<open>js_prop v k\<close> is the read \<open>v.k\<close> on a value that is neither \<open>undefined\<close> nor
  \<open>null\<close>, for the property names the adapters use; \<open>get_prop\<close> adds the
  TypeError of a read on \<open>undefined\<close> or \<open>null\<close>.
\<close>

fun js_prop :: "jsval \<Rightarrow> string \<Rightarrow> jsval" where
  "js_prop (VObj kvs) k = (case map_of kvs k of Some v \<Rightarrow> v | None \<Rightarrow> VUndef)"
| "js_prop (VStr s) k = (if k = ''length'' then VNum (int (length s)) else VUndef)"
| "js_prop (VArr xs) k = (if k = ''length'' then VNum (int (length xs)) else VUndef)"
| "js_prop v k = VUndef"

definition get_prop :: "jsval \<Rightarrow> string \<Rightarrow> error + jsval" where
  "get_prop v k = (if nullish v then Inl TypeError else Inr (js_prop v k))"

fun has_own :: "jsval \<Rightarrow> string \<Rightarrow> bool" where
  "has_own (VObj kvs) k = (map_of kvs k \<noteq> None)"
| "has_own v k = False"

definition js_or :: "jsval \<Rightarrow> jsval \<Rightarrow> jsval" where
  "js_or a b = (if truthy a then a else b)"

definition opt_get :: "obj \<Rightarrow> string \<Rightarrow> optval" where
  "opt_get ob k = (case ob k of Some v \<Rightarrow> v | None \<Rightarrow> Val VUndef)"

subsection \<open>Conversion to strings\<close>

fun digits :: "nat \<Rightarrow> string" where
  "digits n = (if n < 10 then [''0123456789'' ! n] else digits (n div 10) @ [''0123456789'' ! (n mod 10)])"

definition show_int :: "int \<Rightarrow> string" where
  "show_int i = (if i < 0 then CHR ''-'' # digits (nat (- i)) else digits (nat i))"

fun join_with :: "string \<Rightarrow> string list \<Rightarrow> string" where
  "join_with sep [] = []"
| "join_with sep [x] = x"
| "join_with sep (x # y # ys) = x @ sep @ join_with sep (y # ys)"

text \<open>
  \<open>String(v)\<close>, as template literals and string concatenation apply it. The text of a
  date depends on the host's clock zone and is written as a bracketed tag; the
  adapters never convert the one date they build (\<open>lastModified\<close>) to text.
\<close>

fun to_string :: "jsval \<Rightarrow> string" where
  "to_string VUndef = ''undefined''"
| "to_string VNull = ''null''"
| "to_string (VBool b) = (if b then ''true'' else ''false'')"
| "to_string (VNum n) = show_int n"
| "to_string VNaN = ''NaN''"
| "to_string (VStr s) = s"
| "to_string (VArr xs) = join_with '','' (map (\<lambda>x. if x = VUndef \<or> x = VNull then [] else to_string x) xs)"
| "to_string (VObj kvs) = ''[object Object]''"
| "to_string (VDate v) = ''[Date '' @ to_string v @ '']''"

fun to_string_opt :: "optval \<Rightarrow> string" where
  "to_string_opt (Val v) = to_string v"
| "to_string_opt (Ref a) = ''[object Object]''"

text \<open>
  The path argument of a client call: a string, or (after \<open>slice\<close>, which passes the
  receiver itself as the new handle's path) a file handle object, a Blob.
\<close>

datatype fpath = PathStr string | PathBlob

fun path_text :: "fpath \<Rightarrow> string" where
  "path_text (PathStr s) = s"
| "path_text PathBlob = ''[object Blob]''"

fun path_arg :: "fpath \<Rightarrow> string option" where
  "path_arg (PathStr s) = Some s"
| "path_arg PathBlob = None"

fun str_arg :: "optval \<Rightarrow> string option" where
  "str_arg (Val (VStr s)) = Some s"
| "str_arg v = None"

subsection \<open>encodeURIComponent\<close>

definition unreserved :: "char \<Rightarrow> bool" where
  "unreserved c = (c \<in> set ''ABCDEFGHIJKLMNOPQRSTUVWXYZabcdefghijklmnopqrstuvwxyz0123456789-_.!~*()'' \<or> c = CHR 0x27)"

definition percent :: "nat \<Rightarrow> string" where
  "percent n = [CHR ''%'', ''0123456789ABCDEF'' ! (n div 16), ''0123456789ABCDEF'' ! (n mod 16)]"

definition encode_unit :: "char \<Rightarrow> string" where
  "encode_unit c =
     (let n = (of_char c :: nat) in
      if unreserved c then [c]
      else if n < 128 then percent n
      else percent (192 + n div 64) @ percent (128 + n mod 64))"

definition encodeURIComponent :: "string \<Rightarrow> string" where
  "encodeURIComponent s = concat (map encode_unit s)"

section \<open>path/posix\<close>

fun split_on :: "char \<Rightarrow> string \<Rightarrow> string list" where
  "split_on c [] = [[]]"
| "split_on c (x # xs) =
     (if x = c then [] # split_on c xs
      else (case split_on c xs of [] \<Rightarrow> [[x]] | s # ss \<Rightarrow> (x # s) # ss))"

text \<open>
  \<open>normalizeString\<close> walks the segments between separators: an empty segment and
  \<open>.\<close> are dropped, \<open>..\<close> removes the segment before it unless there is none or
  it is \<open>..\<close> itself, in which case \<open>..\<close> is kept only above a relative path.
\<close>

definition norm_step :: "bool \<Rightarrow> string list \<Rightarrow> string \<Rightarrow> string list" where
  "norm_step allowAboveRoot res seg =
     (if seg = [] \<or> seg = ''.'' then res
      else if seg = ''..'' then
        (if res \<noteq> [] \<and> last res \<noteq> ''..'' then butlast res
         else if allowAboveRoot then res @ [''..'']
         else res)
      else res @ [seg])"

definition normalizeString :: "string \<Rightarrow> bool \<Rightarrow> string" where
  "normalizeString p allowAboveRoot =
     join_with ''/'' (foldl (norm_step allowAboveRoot) [] (split_on CHR ''/'' p))"

definition normalize :: "string \<Rightarrow> string" where
  "normalize p =
     (if p = [] then ''.''
      else
        (let isAbsolute = (hd p = CHR ''/'');
             trailingSeparator = (last p = CHR ''/'');
             q = normalizeString p (\<not> isAbsolute)
         in if q = [] then (if isAbsolute then ''/'' else if trailingSeparator then ''./'' else ''.'')
            else (let q' = (if trailingSeparator then q @ ''/'' else q)
                  in if isAbsolute then CHR ''/'' # q' else q')))"

text \<open>
  \<open>path.join\<close>: every argument must be a string (\<open>None\<close> stands for an argument
  that is not one); empty arguments are skipped, the rest joined by \<open>/\<close> and
  normalized.
\<close>

definition posix_join :: "string option list \<Rightarrow> error + string" where
  "posix_join args =
     (if None \<in> set args then Inl TypeError
      else
        (let parts = filter (\<lambda>s. s \<noteq> []) (map the args)
         in if parts = [] then Inr ''.'' else Inr (normalize (join_with ''/'' parts))))"

definition basename :: "string \<Rightarrow> string" where
  "basename p =
     (let q = rev (dropWhile (\<lambda>c. c = CHR ''/'') (rev p))
      in rev (takeWhile (\<lambda>c. c \<noteq> CHR ''/'') (rev q)))"

definition dirname :: "string \<Rightarrow> string" where
  "dirname p =
     (if p = [] then ''.''
      else
        (let hasRoot = (hd p = CHR ''/'');
             t = rev (dropWhile (\<lambda>c. c = CHR ''/'') (rev (tl p)));
             keep = rev (dropWhile (\<lambda>c. c \<noteq> CHR ''/'') (rev t))
         in if keep = [] then (if hasRoot then ''/'' else ''.'')
            else if hasRoot \<and> length keep = 1 then ''//''
            else take (length keep) p))"

section \<open>Heap, requests and promises\<close>

text \<open>
  What \<open>write\<close> may be given, as far as its \<open>size\<close> and \<open>length\<close> properties
  go: a string; a typed array of so many elements of so many bytes each; a
  \<open>DataView\<close> and an \<open>ArrayBuffer\<close> or \<open>SharedArrayBuffer\<close> of so many bytes; a
  \<open>Request\<close>; a \<open>Response\<close>; a \<open>Blob\<close> (or file) whose \<open>size\<close> reads the
  given number.
\<close>

datatype payload =
    PString string
  | PTypedArray nat nat
  | PDataView nat
  | PArrayBuffer nat
  | PRequest
  | PResponse
  | PBlob nat

datatype formval = FText string | FPayload payload | FFile payload string

datatype body = NoBody | JsonText "(string \<times> optval) list" | FormData "(string \<times> formval) list"

record request =
  url :: string
  rmethod :: "string option"
  headers :: "(string \<times> string) list"
  body :: body

datatype response = Response (status: nat) (rheaders: "(string \<times> string) list") (rjson: "jsval option")

text \<open>
  \<open>fetch\<close> is answered by the network: from the requests sent before and the
  request, a response, or \<open>None\<close> when the promise of \<open>fetch\<close> rejects. Each
  call of \<open>fetch\<close> is recorded with the function that made it.
\<close>

type_synonym network = "request list \<Rightarrow> request \<Rightarrow> response option"

datatype site = CreateTicket | Request

text \<open>
  Objects that are shared by reference (configuration objects, merged option sets,
  the ticket slot) live in a heap; an address is an index, and a new object is
  appended, so its address was never in use before.
\<close>

record state =
  heap :: "obj list"
  fetched :: "(site \<times> request) list"

definition obj_at :: "obj list \<Rightarrow> nat \<Rightarrow> obj" where
  "obj_at h a = (if a < length h then h ! a else Map.empty)"

definition alloc :: "obj \<Rightarrow> state \<Rightarrow> nat \<times> state" where
  "alloc ob st = (length (heap st), st\<lparr>heap := heap st @ [ob]\<rparr>)"

definition fetch :: "network \<Rightarrow> site \<Rightarrow> request \<Rightarrow> state \<Rightarrow> response outcome \<times> state" where
  "fetch net s r st =
     (case net (map snd (fetched st)) r of
        None \<Rightarrow> (Rejected FetchError, st\<lparr>fetched := fetched st @ [(s, r)]\<rparr>)
      | Some res \<Rightarrow> (Resolved res, st\<lparr>fetched := fetched st @ [(s, r)]\<rparr>))"

text \<open>
  \<open>p.then(f)\<close>: the callback runs on the resolved value; a throw inside it rejects
  the new promise. \<open>then_do\<close> is the same for a callback that itself returns a
  promise. \<open>p.catch(h)\<close> resolves a rejection with the handler's value. Neither
  is reached when the call that should have returned \<open>p\<close> threw.
\<close>

definition then_pure :: "'a outcome \<times> state \<Rightarrow> ('a \<Rightarrow> error + 'b) \<Rightarrow> 'b outcome \<times> state" where
  "then_pure p f =
     (case p of
        (Resolved x, st) \<Rightarrow> (case f x of Inr y \<Rightarrow> (Resolved y, st) | Inl e \<Rightarrow> (Rejected e, st))
      | (Rejected e, st) \<Rightarrow> (Rejected e, st)
      | (Thrown e, st) \<Rightarrow> (Thrown e, st))"

definition as_rejection :: "'a outcome \<times> state \<Rightarrow> 'a outcome \<times> state" where
  "as_rejection p = (case p of (Thrown e, st) \<Rightarrow> (Rejected e, st) | q \<Rightarrow> q)"

definition then_do :: "'a outcome \<times> state \<Rightarrow> ('a \<Rightarrow> state \<Rightarrow> 'b outcome \<times> state) \<Rightarrow> 'b outcome \<times> state" where
  "then_do p f =
     (case p of
        (Resolved x, st) \<Rightarrow> as_rejection (f x st)
      | (Rejected e, st) \<Rightarrow> (Rejected e, st)
      | (Thrown e, st) \<Rightarrow> (Thrown e, st))"

definition catch_pure :: "'a outcome \<times> state \<Rightarrow> (error \<Rightarrow> 'a) \<Rightarrow> 'a outcome \<times> state" where
  "catch_pure p h =
     (case p of
        (Rejected e, st) \<Rightarrow> (Resolved (h e), st)
      | q \<Rightarrow> q)"

definition res_json :: "response \<Rightarrow> error + jsval" where
  "res_json res = (case rjson res of None \<Rightarrow> Inl SyntaxError | Some d \<Rightarrow> Inr d)"

text \<open>
  \<open>Object.assign(target, ...sources)\<close> on property maps: a source that is
  \<open>undefined\<close> (\<open>None\<close>) is skipped, later sources win.
\<close>

definition assign :: "obj \<Rightarrow> obj option list \<Rightarrow> obj" where
  "assign target sources = foldl (\<lambda>t s. case s of None \<Rightarrow> t | Some m \<Rightarrow> t ++ m) target sources"

section \<open>The source-control adapter (gitlab/index.ts)\<close>

definition API_VERSION :: string where
  "API_VERSION = ''v4''"

definition buildURI :: "string \<Rightarrow> obj \<Rightarrow> error + string" where
  "buildURI uri opts =
     (case posix_join [str_arg (opt_get opts ''endpoint''), Some ''api'', Some API_VERSION,
                       Some ''projects'', str_arg (opt_get opts ''project_id''),
                       Some ''repository/files'', Some uri] of
        Inl e \<Rightarrow> Inl e
      | Inr p \<Rightarrow> Inr (p @ ''?ref='' @ to_string_opt (opt_get opts ''branch'')))"

definition g_request ::
  "network \<Rightarrow> string \<Rightarrow> obj \<Rightarrow> string option \<Rightarrow> body \<Rightarrow> state \<Rightarrow> response outcome \<times> state" where
  "g_request net uri opts m b st =
     (case buildURI uri opts of
        Inl e \<Rightarrow> (Rejected e, st)
      | Inr u \<Rightarrow>
          fetch net Request
            \<lparr>url = u, rmethod = m,
             headers = [(''PRIVATE-TOKEN'', to_string_opt (opt_get opts ''secretAccessKey''))],
             body = b\<rparr> st)"

datatype gitlab_client = GitlabClient (g_opts: nat)

definition g_cloneOptions :: "gitlab_client \<Rightarrow> obj option list \<Rightarrow> state \<Rightarrow> nat \<times> state" where
  "g_cloneOptions c args st = alloc (assign (obj_at (heap st) (g_opts c)) args) st"

text \<open>
  The metadata of \<open>stat\<close>: one field per response header whose name starts with
  \<open>x-gitlab\<close>, named by the header name from its tenth character on; then \<open>size\<close>
  is replaced by \<open>Number(data.size)\<close>. Assigning a string to \<open>__proto__\<close> leaves an
  object as it is. \<open>Number\<close> on a string is the host's numeric parser, a parameter;
  here it is applied to \<open>undefined\<close> or to a header's string only.
\<close>

definition assign_field :: "(string \<times> jsval) list \<Rightarrow> string \<Rightarrow> jsval \<Rightarrow> (string \<times> jsval) list" where
  "assign_field d k v = (if k = ''__proto__'' then d else AList.update k v d)"

definition header_fields :: "(string \<times> string) list \<Rightarrow> (string \<times> jsval) list" where
  "header_fields hs =
     foldl (\<lambda>d (name, v). if take 8 name = ''x-gitlab'' then assign_field d (drop 9 name) (VStr v) else d) [] hs"

fun to_number :: "(string \<Rightarrow> jsval) \<Rightarrow> jsval \<Rightarrow> jsval" where
  "to_number num VUndef = VNaN"
| "to_number num VNull = VNum 0"
| "to_number num (VBool b) = VNum (if b then 1 else 0)"
| "to_number num (VNum n) = VNum n"
| "to_number num VNaN = VNaN"
| "to_number num (VStr s) = num s"
| "to_number num (VArr xs) = num (to_string (VArr xs))"
| "to_number num (VObj kvs) = num (to_string (VObj kvs))"
| "to_number num (VDate v) = to_number num v"

definition stat_data :: "(string \<Rightarrow> jsval) \<Rightarrow> (string \<times> string) list \<Rightarrow> jsval" where
  "stat_data num hs =
     (let data = header_fields hs
      in VObj (AList.update ''size'' (to_number num (js_prop (VObj data) ''size'')) data))"

definition gitlab_stat ::
  "network \<Rightarrow> (string \<Rightarrow> jsval) \<Rightarrow> gitlab_client \<Rightarrow> fpath \<Rightarrow> obj option \<Rightarrow> state \<Rightarrow> jsval outcome \<times> state" where
  "gitlab_stat net num c p options st =
     (let (a, st1) = g_cloneOptions c [options] st
      in then_pure
           (g_request net (encodeURIComponent (path_text p)) (obj_at (heap st1) a) (Some ''HEAD'') NoBody st1)
           (\<lambda>res. Inr (stat_data num (rheaders res))))"

definition gitlab_exists ::
  "network \<Rightarrow> (string \<Rightarrow> jsval) \<Rightarrow> gitlab_client \<Rightarrow> fpath \<Rightarrow> obj option \<Rightarrow> state \<Rightarrow> jsval outcome \<times> state" where
  "gitlab_exists net num c p options st =
     catch_pure
       (then_pure (gitlab_stat net num c p options st)
          (\<lambda>stat. case get_prop stat ''type'' of Inl e \<Rightarrow> Inl e | Inr t \<Rightarrow> Inr (VBool (truthy t))))
       (\<lambda>e. VBool False)"

definition gitlab_size ::
  "network \<Rightarrow> (string \<Rightarrow> jsval) \<Rightarrow> gitlab_client \<Rightarrow> fpath \<Rightarrow> obj option \<Rightarrow> state \<Rightarrow> jsval outcome \<times> state" where
  "gitlab_size net num c p options st =
     then_pure (gitlab_stat net num c p options st) (\<lambda>stat. get_prop stat ''size'')"

definition gitlab_presign :: "gitlab_client \<Rightarrow> fpath \<Rightarrow> obj option \<Rightarrow> state \<Rightarrow> (error + string) \<times> state" where
  "gitlab_presign c file_path options st =
     (let (a, st1) = g_cloneOptions c [options] st;
          opts = obj_at (heap st1) a
      in (case posix_join [str_arg (opt_get opts ''endpoint''), str_arg (opt_get opts ''bucket''),
                           Some ''-/raw'', str_arg (opt_get opts ''branch''), path_arg file_path] of
            Inl e \<Rightarrow> Inl e
          | Inr p \<Rightarrow> Inr (p @ ''?inline='' @ to_string (VBool (truthy_opt (opt_get opts ''inline'')))),
          st1))"

fun payload_size :: "payload \<Rightarrow> jsval" where
  "payload_size (PBlob n) = VNum (int n)"
| "payload_size d = VUndef"

fun payload_length :: "payload \<Rightarrow> jsval" where
  "payload_length (PString s) = VNum (int (length s))"
| "payload_length (PTypedArray n w) = VNum (int n)"
| "payload_length d = VUndef"

definition gitlab_write ::
  "network \<Rightarrow> gitlab_client \<Rightarrow> fpath \<Rightarrow> payload \<Rightarrow> obj option \<Rightarrow> state \<Rightarrow> jsval outcome \<times> state" where
  "gitlab_write net c file_path data options st =
     (let (a, st1) = g_cloneOptions c [options] st;
          opts = obj_at (heap st1) a;
          req_body = FormData [(''content'', FPayload data),
                               (''commit_message'', FText ''Uploaded a file''),
                               (''branch'', FText (to_string_opt (opt_get opts ''branch'')))]
      in then_pure
           (g_request net (encodeURIComponent (path_text file_path)) opts (Some ''POST'') req_body st1)
           (\<lambda>res. if status res = 201 then Inr (js_or (payload_size data) (payload_length data))
                   else Inr VUndef))"

text \<open>
  \<open>delete\<close> builds its URI from \<open>NODE_ID\<close>, a name that nothing binds: evaluating
  the argument throws before \<open>request\<close> or \<open>#cloneOptions\<close> is called.
\<close>

definition gitlab_delete ::
  "network \<Rightarrow> gitlab_client \<Rightarrow> fpath \<Rightarrow> obj option \<Rightarrow> state \<Rightarrow> jsval outcome \<times> state" where
  "gitlab_delete net c p options st = (Thrown ReferenceError, st)"

subsection \<open>GitlabFile\<close>

datatype gitlab_file =
  GitlabFile (gf_path: fpath) (gf_options: nat) (gf_client: gitlab_client) (gf_stat: jsval) (gf_name: jsval)

definition gitlab_file :: "gitlab_client \<Rightarrow> fpath \<Rightarrow> obj option \<Rightarrow> state \<Rightarrow> gitlab_file \<times> state" where
  "gitlab_file c p options st =
     (let (a, st1) = g_cloneOptions c [options] st
      in (GitlabFile p a c VUndef VUndef, st1))"

definition gf_stat_op ::
  "network \<Rightarrow> (string \<Rightarrow> jsval) \<Rightarrow> gitlab_file \<Rightarrow> state \<Rightarrow> jsval outcome \<times> gitlab_file \<times> state" where
  "gf_stat_op net num f st =
     (if truthy (gf_stat f) then (Resolved (gf_stat f), f, st)
      else
        (case gitlab_stat net num (gf_client f) (gf_path f) (Some (obj_at (heap st) (gf_options f))) st of
           (Resolved stat, st1) \<Rightarrow>
             (case get_prop stat ''name'' of
                Inl e \<Rightarrow> (Rejected e, f, st1)
              | Inr n \<Rightarrow> (Resolved stat, GitlabFile (gf_path f) (gf_options f) (gf_client f) stat n, st1))
         | (Rejected e, st1) \<Rightarrow> (Rejected e, f, st1)
         | (Thrown e, st1) \<Rightarrow> (Rejected e, f, st1)))"

definition gf_exists ::
  "network \<Rightarrow> (string \<Rightarrow> jsval) \<Rightarrow> gitlab_file \<Rightarrow> state \<Rightarrow> jsval outcome \<times> gitlab_file \<times> state" where
  "gf_exists net num f st =
     (case gf_stat_op net num f st of
        (Resolved s, f1, st1) \<Rightarrow> (Resolved (VBool (truthy (js_prop s ''type''))), f1, st1)
      | q \<Rightarrow> q)"

definition gf_slice :: "gitlab_file \<Rightarrow> jsval \<Rightarrow> jsval \<Rightarrow> jsval \<Rightarrow> state \<Rightarrow> gitlab_file \<times> state" where
  "gf_slice f start end' contentType st =
     (GitlabFile PathBlob (gf_options f) (gf_client f) VUndef VUndef,
      st\<lparr>heap := (heap st)[gf_options f :=
              (obj_at (heap st) (gf_options f))
                (''sliceStart'' \<mapsto> Val start, ''sliceEnd'' \<mapsto> Val end', ''sliceContentType'' \<mapsto> Val contentType)]\<rparr>)"

definition gf_presign :: "gitlab_file \<Rightarrow> obj option \<Rightarrow> state \<Rightarrow> (error + string) \<times> state" where
  "gf_presign f options st =
     gitlab_presign (gf_client f) (gf_path f)
       (Some (assign (obj_at (heap st) (gf_options f)) [options])) st"

definition gf_write ::
  "network \<Rightarrow> gitlab_file \<Rightarrow> payload \<Rightarrow> obj option \<Rightarrow> state \<Rightarrow> jsval outcome \<times> state" where
  "gf_write net f data options st = gitlab_write net (gf_client f) (gf_path f) data options st"

section \<open>The content-management adapter\<close>

subsection \<open>btoa and the pattern of the shared-link conflict\<close>

definition b64 :: "nat \<Rightarrow> char" where
  "b64 n = ''ABCDEFGHIJKLMNOPQRSTUVWXYZabcdefghijklmnopqrstuvwxyz0123456789+/'' ! n"

fun btoa_units :: "nat list \<Rightarrow> string" where
  "btoa_units [] = []"
| "btoa_units [a] = [b64 (a div 4), b64 ((a mod 4) * 16), CHR ''='', CHR ''='']"
| "btoa_units [a, b] =
     [b64 (a div 4), b64 ((a mod 4) * 16 + b div 16), b64 ((b mod 16) * 4), CHR ''='']"
| "btoa_units (a # b # c # r) =
     [b64 (a div 4), b64 ((a mod 4) * 16 + b div 16), b64 ((b mod 16) * 4 + c div 64), b64 (c mod 64)]
     @ btoa_units r"

definition btoa :: "string \<Rightarrow> string" where
  "btoa s = btoa_units (map of_char s)"

text \<open>
  \<open>s.match(/\[(.+)\]/)[1]\<close>: from the leftmost \<open>[\<close> that can start a match, the
  longest run of characters other than line terminators that is not empty and is
  followed by \<open>]\<close>; \<open>None\<close> when nothing matches.
\<close>

definition line_terminator :: "char \<Rightarrow> bool" where
  "line_terminator c = (c = CHR 0x0A \<or> c = CHR 0x0D)"

definition capture_upto_bracket :: "string \<Rightarrow> string option" where
  "capture_upto_bracket r =
     (let run = takeWhile (\<lambda>c. \<not> line_terminator c) r;
          keep = rev (dropWhile (\<lambda>c. c \<noteq> CHR '']'') (rev run))
      in if length keep < 2 then None else Some (butlast keep))"

fun bracket_match :: "string \<Rightarrow> string option" where
  "bracket_match [] = None"
| "bracket_match (c # cs) =
     (if c = CHR ''['' then
        (case capture_upto_bracket cs of Some g \<Rightarrow> Some g | None \<Rightarrow> bracket_match cs)
      else bracket_match cs)"

subsection \<open>Tickets and requests\<close>

definition buildUrl :: "string \<Rightarrow> obj \<Rightarrow> string" where
  "buildUrl p opts = to_string_opt (opt_get opts ''endpoint'') @ ''/alfresco/api/-default-/public'' @ p"

definition buildPath :: "fpath \<Rightarrow> obj \<Rightarrow> bool \<Rightarrow> error + string" where
  "buildPath file_path opts dir =
     posix_join [str_arg (opt_get opts ''bucket''),
                 (if dir then map_option dirname (path_arg file_path) else path_arg file_path)]"

definition ticket_request :: "obj \<Rightarrow> request" where
  "ticket_request opts =
     \<lparr>url = buildUrl ''/authentication/versions/1/tickets'' opts,
      rmethod = Some ''POST'',
      headers = [(''content-type'', ''application/json'')],
      body = JsonText [(''userId'', opt_get opts ''accessKeyId''),
                       (''password'', opt_get opts ''secretAccessKey'')]\<rparr>"

definition createTicket :: "network \<Rightarrow> obj \<Rightarrow> state \<Rightarrow> jsval outcome \<times> state" where
  "createTicket net opts st =
     then_pure
       (then_pure (fetch net CreateTicket (ticket_request opts) st) res_json)
       (\<lambda>data. case get_prop data ''entry'' of
                  Inl e \<Rightarrow> Inl e
                | Inr entry \<Rightarrow>
                    (case get_prop entry ''id'' of
                       Inl e \<Rightarrow> Inl e
                     | Inr i \<Rightarrow> Inr (VStr (btoa (to_string i)))))"

fun is_object :: "jsval \<Rightarrow> bool" where
  "is_object (VArr xs) = True"
| "is_object (VObj kvs) = True"
| "is_object (VDate v) = True"
| "is_object v = False"

text \<open>
  \<open>getTicket(ticket, opts)\<close> is \<open>ticket.id || createTicket(opts).then(id => ticket.id = id)\<close>.
  The slot is normally a heap object; a plain value in its place (a caller's
  override) is read the same way, and storing into a primitive throws.
\<close>

definition getTicket :: "network \<Rightarrow> optval \<Rightarrow> obj \<Rightarrow> state \<Rightarrow> optval outcome \<times> state" where
  "getTicket net ticket opts st =
     (case ticket of
        Ref a \<Rightarrow>
          (let cur = opt_get (obj_at (heap st) a) ''id''
           in if truthy_opt cur then (Resolved cur, st)
              else
                (case createTicket net opts st of
                   (Resolved i, st1) \<Rightarrow>
                     (Resolved (Val i),
                      st1\<lparr>heap := (heap st1)[a := (obj_at (heap st1) a)(''id'' \<mapsto> Val i)]\<rparr>)
                 | (Rejected e, st1) \<Rightarrow> (Rejected e, st1)
                 | (Thrown e, st1) \<Rightarrow> (Thrown e, st1)))
      | Val v \<Rightarrow>
          (if nullish v then (Thrown TypeError, st)
           else if truthy (js_prop v ''id'') then (Resolved (Val (js_prop v ''id'')), st)
           else
             (case createTicket net opts st of
                (Resolved i, st1) \<Rightarrow>
                  (if is_object v then (Resolved (Val i), st1) else (Rejected TypeError, st1))
              | (Rejected e, st1) \<Rightarrow> (Rejected e, st1)
              | (Thrown e, st1) \<Rightarrow> (Thrown e, st1))))"

definition a_request ::
  "network \<Rightarrow> string \<Rightarrow> optval \<Rightarrow> obj \<Rightarrow> string option \<Rightarrow> body \<Rightarrow> (string \<times> string) list \<Rightarrow> state
     \<Rightarrow> response outcome \<times> state" where
  "a_request net u ticket opts m b hdrs st =
     (case getTicket net ticket opts st of
        (Resolved t, st1) \<Rightarrow>
          fetch net Request
            \<lparr>url = buildUrl (''/alfresco/versions/1'' @ u) opts,
             rmethod = m,
             headers = fold (\<lambda>(k, v). AList.update k v) hdrs
                         [(''Authorization'', ''Basic '' @ to_string_opt t)],
             body = b\<rparr> st1
      | (Rejected e, st1) \<Rightarrow> (Rejected e, st1)
      | (Thrown e, st1) \<Rightarrow> (Rejected e, st1))"

subsection \<open>AlfrescoClient\<close>

datatype alfresco_client = AlfrescoClient (a_opts: nat) (a_ticket: nat)

definition a_cloneOptions :: "alfresco_client \<Rightarrow> obj option list \<Rightarrow> state \<Rightarrow> nat \<times> state" where
  "a_cloneOptions c args st =
     alloc (assign ((obj_at (heap st) (a_opts c))(''ticket'' \<mapsto> Ref (a_ticket c))) args) st"

text \<open>
  The callback of \<open>stat\<close> on the parsed response. The module is strict code, so
  storing a property into a primitive entry throws.
\<close>

definition normalize_entry :: "jsval \<Rightarrow> error + jsval" where
  "normalize_entry data =
     (case get_prop data ''error'' of
        Inl e \<Rightarrow> Inl e
      | Inr err \<Rightarrow>
          if truthy err then Inl (Reason (js_prop err ''briefSummary''))
          else
            (case js_prop data ''entry'' of
               VObj kvs \<Rightarrow>
                 (let d1 = AList.update ''type'' (js_prop (VObj kvs) ''nodeType'') kvs;
                      content = js_prop (VObj d1) ''content''
                  in if nullish content then Inl TypeError
                     else
                       (let d2 = AList.update ''size'' (js_prop content ''length'') d1;
                            d3 = AList.update ''lastModified'' (VDate (js_prop content ''modifiedAt'')) d2;
                            d4 = (case js_prop (VObj d3) ''content'' of
                                    VObj ckvs \<Rightarrow>
                                      AList.update ''content''
                                        (VObj (AList.delete ''mimeType'' (AList.delete ''sizeInBytes'' ckvs))) d3
                                  | other \<Rightarrow> d3)
                        in Inr (VObj (AList.delete ''modifiedAt'' d4))))
             | other \<Rightarrow> Inl TypeError))"

definition alfresco_stat ::
  "network \<Rightarrow> alfresco_client \<Rightarrow> fpath \<Rightarrow> obj option \<Rightarrow> state \<Rightarrow> jsval outcome \<times> state" where
  "alfresco_stat net c p options st =
     (let (a, st1) = a_cloneOptions c [options] st;
          opts = obj_at (heap st1) a
      in case buildPath p opts False of
           Inl e \<Rightarrow> (Thrown e, st1)
         | Inr bp \<Rightarrow>
             then_pure
               (then_pure
                  (a_request net (''/nodes/-my-?relativePath='' @ bp) (opt_get opts ''ticket'') opts
                     None NoBody [] st1)
                  res_json)
               normalize_entry)"

definition alfresco_exists ::
  "network \<Rightarrow> alfresco_client \<Rightarrow> fpath \<Rightarrow> obj option \<Rightarrow> state \<Rightarrow> jsval outcome \<times> state" where
  "alfresco_exists net c p options st =
     catch_pure
       (then_pure (alfresco_stat net c p options st)
          (\<lambda>stat. case get_prop stat ''type'' of Inl e \<Rightarrow> Inl e | Inr t \<Rightarrow> Inr (VBool (truthy t))))
       (\<lambda>e. VBool False)"

definition alfresco_size ::
  "network \<Rightarrow> alfresco_client \<Rightarrow> fpath \<Rightarrow> obj option \<Rightarrow> state \<Rightarrow> jsval outcome \<times> state" where
  "alfresco_size net c p options st =
     then_pure (alfresco_stat net c p options st) (\<lambda>stat. get_prop stat ''size'')"

definition chain_prop :: "jsval \<Rightarrow> string \<Rightarrow> jsval" where
  "chain_prop v k = (if nullish v then VUndef else js_prop v k)"

text \<open>The last callback of \<open>presign\<close>; \<open>now\<close> is what \<open>Date.now()\<close> returns.\<close>

definition link_entry :: "jsval \<Rightarrow> jsval \<Rightarrow> error + jsval" where
  "link_entry data err =
     (if chain_prop err ''statusCode'' = VNum 409 then
        (case js_prop err ''errorKey'' of
           VStr k \<Rightarrow>
             (case bracket_match k of
                None \<Rightarrow> Inl TypeError
              | Some g \<Rightarrow> Inr (VObj [(''id'', VStr g)]))
         | other \<Rightarrow> Inl TypeError)
      else Inr (js_prop data ''entry''))"

definition link_text :: "nat \<Rightarrow> obj \<Rightarrow> string \<Rightarrow> jsval \<Rightarrow> string" where
  "link_text now opts fp i =
     to_string_opt (opt_get opts ''endpoint'')
     @ ''/share/proxy/alfresco-noauth/api/internal/shared/node/''
     @ to_string i @ ''/content/'' @ basename fp
     @ ''?c=force&noCache='' @ show_int (int now)
     @ ''&a='' @ to_string (VBool (truthy_opt (opt_get opts ''inline'')))"

definition link_url :: "nat \<Rightarrow> obj \<Rightarrow> fpath \<Rightarrow> jsval \<Rightarrow> error + jsval" where
  "link_url now opts file_path data =
     (case get_prop data ''error'' of
        Inl e \<Rightarrow> Inl e
      | Inr err \<Rightarrow>
          (case link_entry data err of
             Inl e \<Rightarrow> Inl e
           | Inr entry \<Rightarrow>
               (case get_prop entry ''id'' of
                  Inl e \<Rightarrow> Inl e
                | Inr i \<Rightarrow>
                    (case path_arg file_path of
                       None \<Rightarrow> Inl TypeError
                     | Some fp \<Rightarrow> Inr (VStr (link_text now opts fp i))))))"

definition alfresco_presign ::
  "network \<Rightarrow> nat \<Rightarrow> alfresco_client \<Rightarrow> fpath \<Rightarrow> obj option \<Rightarrow> state \<Rightarrow> jsval outcome \<times> state" where
  "alfresco_presign net now c file_path options st =
     (let (a, st1) = a_cloneOptions c [options] st;
          opts = obj_at (heap st1) a
      in then_pure
           (then_pure
              (then_do (alfresco_stat net c file_path (Some opts) st1)
                 (\<lambda>stat. a_request net ''/shared-links'' (opt_get opts ''ticket'') opts (Some ''POST'')
                            (JsonText [(''nodeId'', Val (js_prop stat ''id'')),
                                       (''expiresAt'', opt_get opts ''expiresAt'')])
                            [(''content-type'', ''application/json'')]))
              res_json)
           (link_url now opts file_path))"

definition alfresco_write ::
  "network \<Rightarrow> alfresco_client \<Rightarrow> fpath \<Rightarrow> payload \<Rightarrow> obj option \<Rightarrow> state \<Rightarrow> jsval outcome \<times> state" where
  "alfresco_write net c file_path data options st =
     (let (a, st1) = a_cloneOptions c [options] st;
          opts = obj_at (heap st1) a
      in case path_arg file_path of
           None \<Rightarrow> (Thrown TypeError, st1)
         | Some fp \<Rightarrow>
             (case buildPath file_path opts True of
                Inl e \<Rightarrow> (Thrown e, st1)
              | Inr rp \<Rightarrow>
                  then_pure
                    (then_pure
                       (a_request net ''/nodes/-my-/children'' (Ref (a_ticket c)) opts (Some ''POST'')
                          (FormData [(''filedata'', FFile data (basename fp)),
                                     (''nodeType'', FText ''cm:content''),
                                     (''name'', FText (basename fp)),
                                     (''relativePath'', FText rp)])
                          [] st1)
                       res_json)
                    (\<lambda>data. Inr (chain_prop (chain_prop (chain_prop data ''entry'') ''content'') ''sizeInBytes''))))"

definition alfresco_delete ::
  "network \<Rightarrow> alfresco_client \<Rightarrow> fpath \<Rightarrow> obj option \<Rightarrow> state \<Rightarrow> jsval outcome \<times> state" where
  "alfresco_delete net c p options st =
     (let (a, st1) = a_cloneOptions c [options] st
      in then_pure
           (a_request net (''/nodes/'' @ path_text p) (Ref (a_ticket c)) (obj_at (heap st1) a)
              (Some ''DELETE'') NoBody [] st1)
           (\<lambda>res. Inr VUndef))"

subsection \<open>AlfrescoFile\<close>

datatype alfresco_file =
  AlfrescoFile (af_path: fpath) (af_ticket: nat) (af_options: nat) (af_client: alfresco_client)
    (af_stat: jsval) (af_id: jsval)

definition alfresco_file :: "alfresco_client \<Rightarrow> fpath \<Rightarrow> obj option \<Rightarrow> state \<Rightarrow> alfresco_file \<times> state" where
  "alfresco_file c p options st =
     (let (a, st1) = a_cloneOptions c [options] st
      in (AlfrescoFile p (a_ticket c) a c VUndef VUndef, st1))"

definition af_stat_op :: "network \<Rightarrow> alfresco_file \<Rightarrow> state \<Rightarrow> jsval outcome \<times> alfresco_file \<times> state" where
  "af_stat_op net f st =
     (if truthy (af_stat f) then (Resolved (af_stat f), f, st)
      else
        (case alfresco_stat net (af_client f) (af_path f) (Some (obj_at (heap st) (af_options f))) st of
           (Resolved stat, st1) \<Rightarrow>
             (case get_prop stat ''id'' of
                Inl e \<Rightarrow> (Rejected e, f, st1)
              | Inr i \<Rightarrow>
                  (Resolved stat,
                   AlfrescoFile (af_path f) (af_ticket f) (af_options f) (af_client f) stat i, st1))
         | (Rejected e, st1) \<Rightarrow> (Rejected e, f, st1)
         | (Thrown e, st1) \<Rightarrow> (Rejected e, f, st1)))"

definition af_exists :: "network \<Rightarrow> alfresco_file \<Rightarrow> state \<Rightarrow> jsval outcome \<times> alfresco_file \<times> state" where
  "af_exists net f st =
     (case af_stat_op net f st of
        (Resolved s, f1, st1) \<Rightarrow> (Resolved (VBool (truthy s)), f1, st1)
      | q \<Rightarrow> q)"

definition af_presign ::
  "network \<Rightarrow> nat \<Rightarrow> alfresco_file \<Rightarrow> obj option \<Rightarrow> state \<Rightarrow> jsval outcome \<times> state" where
  "af_presign net now f options st =
     alfresco_presign net now (af_client f) (af_path f)
       (Some (assign ((obj_at (heap st) (af_options f))(''ticket'' \<mapsto> Ref (af_ticket f))) [options])) st"

definition af_slice :: "alfresco_file \<Rightarrow> jsval \<Rightarrow> jsval \<Rightarrow> jsval \<Rightarrow> state \<Rightarrow> alfresco_file \<times> state" where
  "af_slice f start end' contentType st =
     (AlfrescoFile PathBlob (af_ticket f) (af_options f) (af_client f) VUndef VUndef,
      st\<lparr>heap := (heap st)[af_options f :=
              (obj_at (heap st) (af_options f))
                (''sliceStart'' \<mapsto> Val start, ''sliceEnd'' \<mapsto> Val end', ''sliceContentType'' \<mapsto> Val contentType)]\<rparr>)"

text \<open>
  The \<open>start\<close> of \<open>readable\<close> and \<open>delete\<close> read \<open>name\<close>, a property the class
  never sets: its value \<open>nm\<close> is whatever the inherited \<open>Blob\<close> gives. \<open>start\<close>
  calls \<open>stat\<close> unless \<open>name\<close> is truthy, then requests the content of node
  \<open>#id\<close> with the handle's own option object.
\<close>

definition af_open ::
  "network \<Rightarrow> jsval \<Rightarrow> alfresco_file \<Rightarrow> state \<Rightarrow> response outcome \<times> alfresco_file \<times> state" where
  "af_open net nm f st =
     (if truthy nm then
        (fst (a_request net (''/nodes/'' @ to_string (af_id f) @ ''/content'') (Ref (af_ticket f))
                (obj_at (heap st) (af_options f)) None NoBody [] st),
         f,
         snd (a_request net (''/nodes/'' @ to_string (af_id f) @ ''/content'') (Ref (af_ticket f))
                (obj_at (heap st) (af_options f)) None NoBody [] st))
      else
        (case af_stat_op net f st of
           (Resolved s, f1, st1) \<Rightarrow>
             (fst (a_request net (''/nodes/'' @ to_string (af_id f1) @ ''/content'') (Ref (af_ticket f1))
                     (obj_at (heap st1) (af_options f1)) None NoBody [] st1),
              f1,
              snd (a_request net (''/nodes/'' @ to_string (af_id f1) @ ''/content'') (Ref (af_ticket f1))
                     (obj_at (heap st1) (af_options f1)) None NoBody [] st1))
         | (Rejected e, f1, st1) \<Rightarrow> (Rejected e, f1, st1)
         | (Thrown e, f1, st1) \<Rightarrow> (Rejected e, f1, st1)))"

definition af_delete :: "network \<Rightarrow> jsval \<Rightarrow> alfresco_file \<Rightarrow> state \<Rightarrow> jsval outcome \<times> state" where
  "af_delete net nm f st =
     alfresco_delete net (af_client f) (PathStr (to_string nm)) (Some (obj_at (heap st) (af_options f))) st"

section \<open>The claims' vocabulary and example runs\<close>

text \<open>
  The presigned URL as the specification writes it:
  \<open>{endpoint}/{bucket}/-/raw/{branch}/{path}?inline={bool}\<close>.
\<close>

definition spec_presign_url :: "string \<Rightarrow> string \<Rightarrow> string \<Rightarrow> string \<Rightarrow> bool \<Rightarrow> string" where
  "spec_presign_url endpoint bucket branch p inline =
     endpoint @ ''/'' @ bucket @ ''/-/raw/'' @ branch @ ''/'' @ p @ ''?inline=''
     @ (if inline then ''true'' else ''false'')"

text \<open>A string whose segments between \<open>/\<close> are all proper names: none empty, \<open>.\<close> or \<open>..\<close>.\<close>

definition plain_segments :: "string \<Rightarrow> bool" where
  "plain_segments s = list_all (\<lambda>seg. seg \<noteq> [] \<and> seg \<noteq> ''.'' \<and> seg \<noteq> ''..'') (split_on CHR ''/'' s)"

text \<open>The calls of \<open>fetch\<close> made by \<open>createTicket\<close>, in order.\<close>

definition ticket_requests :: "state \<Rightarrow> request list" where
  "ticket_requests st = map snd (filter (\<lambda>sr. fst sr = CreateTicket) (fetched st))"

text \<open>An example of the numeric parser: unsigned decimal digits, the empty string is zero.\<close>

definition decimal_number :: "string \<Rightarrow> jsval" where
  "decimal_number s =
     (if list_all (\<lambda>c. c \<in> set ''0123456789'') s
      then VNum (foldl (\<lambda>n c. 10 * n + (int (of_char c) - 48)) 0 s)
      else VNaN)"

definition gl_config :: obj where
  "gl_config =
     [''endpoint'' \<mapsto> Val (VStr ''gitlab.example.com''),
      ''bucket'' \<mapsto> Val (VStr ''team/docs''),
      ''project_id'' \<mapsto> Val (VStr ''42''),
      ''branch'' \<mapsto> Val (VStr ''main''),
      ''secretAccessKey'' \<mapsto> Val (VStr ''glpat-secret'')]"

definition gl_state :: state where
  "gl_state = \<lparr>heap = [gl_config], fetched = []\<rparr>"

definition gl_client :: gitlab_client where
  "gl_client = GitlabClient 0"

definition net_gitlab :: network where
  "net_gitlab sent r =
     (if rmethod r = Some ''POST'' then Some (Response 201 [] None)
      else Some (Response 200
                   [(''content-type'', ''text/plain''),
                    (''x-gitlab-file-name'', ''a.txt''),
                    (''x-gitlab-size'', ''12''),
                    (''x-gitlab-type'', ''blob'')] None))"

definition af_config :: obj where
  "af_config =
     [''endpoint'' \<mapsto> Val (VStr ''http://localhost:9000''),
      ''bucket'' \<mapsto> Val (VStr ''my-bucket''),
      ''accessKeyId'' \<mapsto> Val (VStr ''user''),
      ''secretAccessKey'' \<mapsto> Val (VStr ''password'')]"

definition af_state :: state where
  "af_state = \<lparr>heap = [af_config, Map.empty], fetched = []\<rparr>"

definition af_client0 :: alfresco_client where
  "af_client0 = AlfrescoClient 0 1"

definition node_json :: jsval where
  "node_json =
     VObj [(''entry'',
            VObj [(''id'', VStr ''n-1''),
                  (''name'', VStr ''123.json''),
                  (''nodeType'', VStr ''cm:content''),
                  (''modifiedAt'', VStr ''2024-01-01T00:00:00.000+0000''),
                  (''content'',
                   VObj [(''mimeType'', VStr ''application/json''),
                         (''sizeInBytes'', VNum 7),
                         (''length'', VNum 7)])])]"

definition net_alfresco :: network where
  "net_alfresco sent r =
     (if rmethod r = Some ''POST'' \<and> body r \<noteq> NoBody \<and> map_of (headers r) ''Authorization'' = None
      then Some (Response 201 [] (Some (VObj [(''entry'', VObj [(''id'', VStr ''TICKET_1'')])])))
      else Some (Response 200 [] (Some node_json)))"

text \<open>A server that refuses the credentials: the ticket request is answered by an error document.\<close>

definition net_denied :: network where
  "net_denied sent r =
     Some (Response 403 []
             (Some (VObj [(''error'', VObj [(''statusCode'', VNum 403),
                                            (''briefSummary'', VStr ''Login failed'')])])))"

definition gl_handle :: gitlab_file where
  "gl_handle = fst (gitlab_file gl_client (PathStr ''a.txt'') None gl_state)"

definition gl_handle_state :: state where
  "gl_handle_state = snd (gitlab_file gl_client (PathStr ''a.txt'') None gl_state)"

definition af_handle :: alfresco_file where
  "af_handle = fst (alfresco_file af_client0 (PathStr ''123.json'') None af_state)"

definition af_handle_state :: state where
  "af_handle_state = snd (alfresco_file af_client0 (PathStr ''123.json'') None af_state)"

text \<open>The client of the example once a ticket is in its slot.\<close>

definition af_ready :: state where
  "af_ready = \<lparr>heap = [af_config, [''id'' \<mapsto> Val (VStr ''VElDS0VUXzE='')]], fetched = []\<rparr>"

text \<open>The configuration of the specification's scenario, with a branch.\<close>

definition gl_url_config :: obj where
  "gl_url_config =
     [''endpoint'' \<mapsto> Val (VStr ''http://localhost:9000''),
      ''bucket'' \<mapsto> Val (VStr ''b''),
      ''project_id'' \<mapsto> Val (VStr ''42''),
      ''branch'' \<mapsto> Val (VStr ''main''),
      ''secretAccessKey'' \<mapsto> Val (VStr ''glpat-secret'')]"

definition gl_url_state :: state where
  "gl_url_state = \<lparr>heap = [gl_url_config], fetched = []\<rparr>"

section \<open>Sequential use of one content-management client\<close>

text \<open>
  A session is the state together with the handles created so far; a call names a
  client operation, or an operation of the handle at an index. Each call runs to
  completion before the next starts.
\<close>

datatype a_call =
    CallStat fpath "obj option"
  | CallExists fpath "obj option"
  | CallSize fpath "obj option"
  | CallPresign nat fpath "obj option"
  | CallWrite fpath payload "obj option"
  | CallDelete fpath "obj option"
  | CallFile fpath "obj option"
  | FileStat nat
  | FileExists nat
  | FilePresign nat nat "obj option"
  | FileSlice nat jsval jsval jsval
  | FileOpen nat jsval
  | FileDelete nat jsval

type_synonym session = "state \<times> alfresco_file list"

fun run_call :: "network \<Rightarrow> alfresco_client \<Rightarrow> session \<Rightarrow> a_call \<Rightarrow> session" where
  "run_call net c (st, fs) (CallStat p options) = (snd (alfresco_stat net c p options st), fs)"
| "run_call net c (st, fs) (CallExists p options) = (snd (alfresco_exists net c p options st), fs)"
| "run_call net c (st, fs) (CallSize p options) = (snd (alfresco_size net c p options st), fs)"
| "run_call net c (st, fs) (CallPresign now p options) = (snd (alfresco_presign net now c p options st), fs)"
| "run_call net c (st, fs) (CallWrite p d options) = (snd (alfresco_write net c p d options st), fs)"
| "run_call net c (st, fs) (CallDelete p options) = (snd (alfresco_delete net c p options st), fs)"
| "run_call net c (st, fs) (CallFile p options) =
     (snd (alfresco_file c p options st), fs @ [fst (alfresco_file c p options st)])"
| "run_call net c (st, fs) (FileStat i) =
     (if i < length fs
      then (snd (snd (af_stat_op net (fs ! i) st)), fs[i := fst (snd (af_stat_op net (fs ! i) st))])
      else (st, fs))"
| "run_call net c (st, fs) (FileExists i) =
     (if i < length fs
      then (snd (snd (af_exists net (fs ! i) st)), fs[i := fst (snd (af_exists net (fs ! i) st))])
      else (st, fs))"
| "run_call net c (st, fs) (FilePresign i now options) =
     (if i < length fs then (snd (af_presign net now (fs ! i) options st), fs) else (st, fs))"
| "run_call net c (st, fs) (FileSlice i start end' contentType) =
     (if i < length fs
      then (snd (af_slice (fs ! i) start end' contentType st),
            fs @ [fst (af_slice (fs ! i) start end' contentType st)])
      else (st, fs))"
| "run_call net c (st, fs) (FileOpen i nm) =
     (if i < length fs
      then (snd (snd (af_open net nm (fs ! i) st)), fs[i := fst (snd (af_open net nm (fs ! i) st))])
      else (st, fs))"
| "run_call net c (st, fs) (FileDelete i nm) =
     (if i < length fs then (snd (af_delete net nm (fs ! i) st), fs) else (st, fs))"

definition run_calls :: "network \<Rightarrow> alfresco_client \<Rightarrow> session \<Rightarrow> a_call list \<Rightarrow> session" where
  "run_calls net c s calls = foldl (run_call net c) s calls"

text \<open>The \<open>id\<close> in the client's ticket slot, and whether a ticket is cached there.\<close>

definition slot_id :: "alfresco_client \<Rightarrow> state \<Rightarrow> optval" where
  "slot_id c st = opt_get (obj_at (heap st) (a_ticket c)) ''id''"

definition ticket_cached :: "alfresco_client \<Rightarrow> state \<Rightarrow> bool" where
  "ticket_cached c st = truthy_opt (slot_id c st)"

text \<open>
  Options of the declared type (\<open>S3Options\<close>) have no \<open>ticket\<close> field; a call is
  typed when its options are.
\<close>

fun typed_options :: "obj option \<Rightarrow> bool" where
  "typed_options None = True"
| "typed_options (Some ov) = (ov ''ticket'' = None)"

fun typed_call :: "a_call \<Rightarrow> bool" where
  "typed_call (CallStat p options) = typed_options options"
| "typed_call (CallExists p options) = typed_options options"
| "typed_call (CallSize p options) = typed_options options"
| "typed_call (CallPresign now p options) = typed_options options"
| "typed_call (CallWrite p d options) = typed_options options"
| "typed_call (CallDelete p options) = typed_options options"
| "typed_call (CallFile p options) = typed_options options"
| "typed_call (FileStat i) = True"
| "typed_call (FileExists i) = True"
| "typed_call (FilePresign i now options) = typed_options options"
| "typed_call (FileSlice i start end' contentType) = True"
| "typed_call (FileOpen i nm) = True"
| "typed_call (FileDelete i nm) = True"

text \<open>
  A handle of client \<open>c\<close>: it holds the client and the client's slot, and its option
  object names that slot as its ticket.
\<close>

definition handle_of :: "alfresco_client \<Rightarrow> state \<Rightarrow> alfresco_file \<Rightarrow> bool" where
  "handle_of c st f =
     (af_client f = c \<and> af_ticket f = a_ticket c \<and>
      opt_get (obj_at (heap st) (af_options f)) ''ticket'' = Ref (a_ticket c))"

text \<open>A call of \<open>fetch\<close> made by \<open>request\<close> that carries the ticket \<open>t\<close>.\<close>

definition authorized :: "optval \<Rightarrow> site \<times> request \<Rightarrow> bool" where
  "authorized t sr =
     (fst sr = Request \<and> map_of (headers (snd sr)) ''Authorization'' = Some (''Basic '' @ to_string_opt t))"

text \<open>
  Between two states: old objects keep every property except the three that
  \<open>slice\<close> writes, and every new call of \<open>fetch\<close> is an authorized request.
\<close>

definition keeps :: "state \<Rightarrow> state \<Rightarrow> bool" where
  "keeps st st' =
     (length (heap st) \<le> length (heap st') \<and>
      (\<forall>a k. a < length (heap st) \<and> k \<noteq> ''sliceStart'' \<and> k \<noteq> ''sliceEnd'' \<and> k \<noteq> ''sliceContentType''
             \<longrightarrow> (heap st' ! a) k = (heap st ! a) k))"

definition reuses :: "alfresco_client \<Rightarrow> state \<Rightarrow> state \<Rightarrow> bool" where
  "reuses c st st' =
     (keeps st st' \<and> (\<exists>new. fetched st' = fetched st @ new \<and> list_all (authorized (slot_id c st)) new))"

section \<open>Properties\<close>

declare digits.simps [simp del]

subsection \<open>What stat resolves with\<close>

lemma nn_stat_data: "\<not> nullish (stat_data num hs)"
  by (simp add: stat_data_def nullish_def Let_def)

lemma truthy_stat_data: "truthy (stat_data num hs)"
  by (simp add: stat_data_def Let_def)

lemma gitlab_stat_cases:
  "fst (gitlab_stat net num c p options st) = Resolved m \<Longrightarrow> \<exists>hs. m = stat_data num hs"
  by (auto simp: gitlab_stat_def then_pure_def g_request_def fetch_def Let_def
           split: prod.splits sum.splits option.splits outcome.splits)

lemma normalize_entry_obj: "normalize_entry d = Inr m \<Longrightarrow> \<exists>kvs. m = VObj kvs"
  by (auto simp: normalize_entry_def Let_def split: sum.splits if_splits jsval.splits)

lemma alfresco_stat_cases:
  "fst (alfresco_stat net c p options st) = Resolved m \<Longrightarrow> \<exists>d. normalize_entry d = Inr m"
  by (auto simp: alfresco_stat_def then_pure_def Let_def
           split: prod.splits sum.splits option.splits outcome.splits)

lemma gitlab_stat_object:
  "fst (gitlab_stat net num c p options st) = Resolved m \<Longrightarrow> \<not> nullish m \<and> truthy m"
  using gitlab_stat_cases[of net num c p options st m] by (auto simp: nn_stat_data truthy_stat_data)

lemma alfresco_stat_object:
  assumes "fst (alfresco_stat net c p options st) = Resolved m"
  shows "\<not> nullish m \<and> truthy m"
proof -
  from assms obtain d where "normalize_entry d = Inr m"
    using alfresco_stat_cases by blast
  then obtain kvs where "m = VObj kvs"
    using normalize_entry_obj by blast
  then show ?thesis by (simp add: nullish_def)
qed

lemma then_get_prop:
  assumes "\<And>m. fst p = Resolved m \<Longrightarrow> \<not> nullish m"
  shows "fst (then_pure p (\<lambda>s. get_prop s k)) =
         (case fst p of Resolved m \<Rightarrow> Resolved (js_prop m k) | Rejected e \<Rightarrow> Rejected e | Thrown e \<Rightarrow> Thrown e)"
  using assms by (cases p; cases "fst p") (auto simp: then_pure_def get_prop_def)

lemma exists_shape:
  assumes "\<And>m. fst p = Resolved m \<Longrightarrow> \<not> nullish m"
  shows "fst (catch_pure (then_pure p (\<lambda>stat. case get_prop stat ''type'' of Inl e \<Rightarrow> Inl e | Inr t \<Rightarrow> Inr (VBool (truthy t)))) (\<lambda>e. VBool False)) =
         (case fst p of Resolved m \<Rightarrow> Resolved (VBool (truthy (js_prop m ''type''))) | Rejected e \<Rightarrow> Resolved (VBool False) | Thrown e \<Rightarrow> Thrown e)"
  using assms by (cases p; cases "fst p") (auto simp: then_pure_def catch_pure_def get_prop_def)

text \<open>
  C1. On both clients \<open>exists\<close> resolves with the truthiness of the \<open>type\<close> field of
  the metadata \<open>stat\<close> resolves with, and with \<open>false\<close> when \<open>stat\<close> rejects; it
  never rejects.
\<close>

theorem exists_follows_stat:
  "fst (gitlab_exists net num gc p options st) =
     (case fst (gitlab_stat net num gc p options st) of
        Resolved m \<Rightarrow> Resolved (VBool (truthy (js_prop m ''type'')))
      | Rejected e \<Rightarrow> Resolved (VBool False)
      | Thrown e \<Rightarrow> Thrown e)
   \<and> fst (alfresco_exists anet ac ap aoptions ast) =
     (case fst (alfresco_stat anet ac ap aoptions ast) of
        Resolved m \<Rightarrow> Resolved (VBool (truthy (js_prop m ''type'')))
      | Rejected e \<Rightarrow> Resolved (VBool False)
      | Thrown e \<Rightarrow> Thrown e)"
  unfolding gitlab_exists_def alfresco_exists_def
  using exists_shape[of "gitlab_stat net num gc p options st"]
        exists_shape[of "alfresco_stat anet ac ap aoptions ast"]
        gitlab_stat_object alfresco_stat_object by blast

text \<open>
  C8. On both clients \<open>size\<close> resolves with the \<open>size\<close> field of the metadata
  \<open>stat\<close> resolves with, whatever that value is (zero included), and fails as
  \<open>stat\<close> fails.
\<close>

theorem size_is_stat_size:
  "fst (gitlab_size net num gc p options st) =
     (case fst (gitlab_stat net num gc p options st) of
        Resolved m \<Rightarrow> Resolved (js_prop m ''size'')
      | Rejected e \<Rightarrow> Rejected e
      | Thrown e \<Rightarrow> Thrown e)
   \<and> fst (alfresco_size anet ac ap aoptions ast) =
     (case fst (alfresco_stat anet ac ap aoptions ast) of
        Resolved m \<Rightarrow> Resolved (js_prop m ''size'')
      | Rejected e \<Rightarrow> Rejected e
      | Thrown e \<Rightarrow> Thrown e)"
  unfolding gitlab_size_def alfresco_size_def
  using then_get_prop[of "gitlab_stat net num gc p options st"]
        then_get_prop[of "alfresco_stat anet ac ap aoptions ast"]
        gitlab_stat_object alfresco_stat_object by blast

subsection \<open>Option sets\<close>

lemma assign_one: "assign base [options] = (case options of None \<Rightarrow> base | Some ov \<Rightarrow> base ++ ov)"
  by (simp add: assign_def)

text \<open>
  C9. On both clients \<open>#cloneOptions\<close> returns an object at an address that was not
  in use, leaves every object that existed (the stored configuration among them) as
  it was, sends nothing, and the new object holds, for each key, the per-call value
  when the call gives one and the instance default otherwise.
\<close>

theorem cloneOptions_fresh_merge:
  "(case g_cloneOptions gc [options] st of
      (a, st') \<Rightarrow>
        a = length (heap st) \<and> take (length (heap st)) (heap st') = heap st \<and>
        fetched st' = fetched st \<and>
        (\<forall>k. obj_at (heap st') a k =
              (case (case options of None \<Rightarrow> None | Some ov \<Rightarrow> ov k) of
                 Some v \<Rightarrow> Some v
               | None \<Rightarrow> obj_at (heap st) (g_opts gc) k)))
   \<and> (case a_cloneOptions ac [aoptions] ast of
      (a, st') \<Rightarrow>
        a = length (heap ast) \<and> take (length (heap ast)) (heap st') = heap ast \<and>
        fetched st' = fetched ast \<and>
        (\<forall>k. obj_at (heap st') a k =
              (case (case aoptions of None \<Rightarrow> None | Some ov \<Rightarrow> ov k) of
                 Some v \<Rightarrow> Some v
               | None \<Rightarrow> ((obj_at (heap ast) (a_opts ac))(''ticket'' \<mapsto> Ref (a_ticket ac))) k)))"
  by (auto simp: g_cloneOptions_def a_cloneOptions_def alloc_def assign_one obj_at_def map_add_def
           split: option.splits)

text \<open>
  C10. On both backends \<open>slice\<close> stores the three overrides into the option object
  the receiver already holds, and the handle it returns holds the same object: a
  later read of the receiver's options, by either handle, finds them.
\<close>

theorem slice_records_in_shared_options:
  "(gf_options gf < length (heap gst) \<longrightarrow>
     (case gf_slice gf start end' ct gst of
        (gf', st') \<Rightarrow>
          gf_options gf' = gf_options gf \<and>
          obj_at (heap st') (gf_options gf) =
            (obj_at (heap gst) (gf_options gf))
              (''sliceStart'' \<mapsto> Val start, ''sliceEnd'' \<mapsto> Val end', ''sliceContentType'' \<mapsto> Val ct) \<and>
          length (heap st') = length (heap gst)))
   \<and> (af_options af < length (heap ast) \<longrightarrow>
     (case af_slice af start end' ct ast of
        (af', st') \<Rightarrow>
          af_options af' = af_options af \<and>
          obj_at (heap st') (af_options af) =
            (obj_at (heap ast) (af_options af))
              (''sliceStart'' \<mapsto> Val start, ''sliceEnd'' \<mapsto> Val end', ''sliceContentType'' \<mapsto> Val ct) \<and>
          length (heap st') = length (heap ast)))"
  by (simp add: gf_slice_def af_slice_def obj_at_def)

subsection \<open>The metadata cache of a handle\<close>

lemma gf_stat_cached_after:
  assumes "gf_stat_op net num f st = (Resolved m, f', st')"
  shows "gf_stat f' = m \<and> truthy m"
proof (cases "truthy (gf_stat f)")
  case True
  with assms show ?thesis by (auto simp: gf_stat_op_def)
next
  case False
  let ?r = "gitlab_stat net num (gf_client f) (gf_path f) (Some (obj_at (heap st) (gf_options f))) st"
  from False assms obtain st1 where r: "?r = (Resolved m, st1)" and f': "gf_stat f' = m"
    by (auto simp: gf_stat_op_def split: prod.splits outcome.splits sum.splits)
  from r have "fst ?r = Resolved m" by simp
  then have "truthy m" using gitlab_stat_object by blast
  with f' show ?thesis by simp
qed

lemma af_stat_cached_after:
  assumes "af_stat_op net f st = (Resolved m, f', st')"
  shows "af_stat f' = m \<and> truthy m"
proof (cases "truthy (af_stat f)")
  case True
  with assms show ?thesis by (auto simp: af_stat_op_def)
next
  case False
  let ?r = "alfresco_stat net (af_client f) (af_path f) (Some (obj_at (heap st) (af_options f))) st"
  from False assms obtain st1 where r: "?r = (Resolved m, st1)" and f': "af_stat f' = m"
    by (auto simp: af_stat_op_def split: prod.splits outcome.splits sum.splits)
  from r have "fst ?r = Resolved m" by simp
  then have "truthy m" using alfresco_stat_object by blast
  with f' show ?thesis by simp
qed

text \<open>
  C2. When a \<open>stat\<close> call on a handle of either backend has resolved with \<open>m\<close>, any
  later \<open>stat\<close> on the handle as that call left it resolves with \<open>m\<close> again,
  whatever the network would answer now, and leaves the handle and the state (the
  record of calls to \<open>fetch\<close> included) as they were.
\<close>

theorem stat_cache_is_sticky:
  "(fst (gf_stat_op net num gf gst) = Resolved m \<longrightarrow>
      gf_stat_op net2 num2 (fst (snd (gf_stat_op net num gf gst))) gst2 =
        (Resolved m, fst (snd (gf_stat_op net num gf gst)), gst2))
   \<and> (fst (af_stat_op anet af ast) = Resolved m' \<longrightarrow>
      af_stat_op anet2 (fst (snd (af_stat_op anet af ast))) ast2 =
        (Resolved m', fst (snd (af_stat_op anet af ast)), ast2))"
proof (intro conjI impI)
  assume a: "fst (gf_stat_op net num gf gst) = Resolved m"
  obtain r f' st' where e: "gf_stat_op net num gf gst = (r, f', st')"
    by (cases "gf_stat_op net num gf gst") auto
  with a have "gf_stat_op net num gf gst = (Resolved m, f', st')" by simp
  then have "gf_stat f' = m \<and> truthy m" by (rule gf_stat_cached_after)
  with e show "gf_stat_op net2 num2 (fst (snd (gf_stat_op net num gf gst))) gst2 =
        (Resolved m, fst (snd (gf_stat_op net num gf gst)), gst2)"
    by (simp add: gf_stat_op_def)
next
  assume a: "fst (af_stat_op anet af ast) = Resolved m'"
  obtain r f' st' where e: "af_stat_op anet af ast = (r, f', st')"
    by (cases "af_stat_op anet af ast") auto
  with a have "af_stat_op anet af ast = (Resolved m', f', st')" by simp
  then have "af_stat f' = m' \<and> truthy m'" by (rule af_stat_cached_after)
  with e show "af_stat_op anet2 (fst (snd (af_stat_op anet af ast))) ast2 =
        (Resolved m', fst (snd (af_stat_op anet af ast)), ast2)"
    by (simp add: af_stat_op_def)
qed

subsection \<open>Example runs\<close>

lemma gl_handle_eval: "gl_handle = GitlabFile (PathStr ''a.txt'') 1 gl_client VUndef VUndef"
  by (simp add: gl_handle_def gitlab_file_def g_cloneOptions_def alloc_def gl_state_def)

lemma gl_handle_state_heap: "length (heap gl_handle_state) = 2"
  by (simp add: gl_handle_state_def gitlab_file_def g_cloneOptions_def alloc_def gl_state_def)

lemma af_handle_eval: "af_handle = AlfrescoFile (PathStr ''123.json'') 1 2 af_client0 VUndef VUndef"
  by (simp add: af_handle_def alfresco_file_def a_cloneOptions_def alloc_def af_state_def af_client0_def)

lemma af_handle_state_heap: "length (heap af_handle_state) = 3"
  by (simp add: af_handle_state_def alfresco_file_def a_cloneOptions_def alloc_def af_state_def)

lemma buildURI_ok:
  "str_arg (opt_get opts ''endpoint'') \<noteq> None \<Longrightarrow> str_arg (opt_get opts ''project_id'') \<noteq> None
     \<Longrightarrow> \<exists>u. buildURI uri opts = Inr u"
  by (auto simp: buildURI_def posix_join_def Let_def)

lemma gl_clone_eval:
  "g_cloneOptions gl_client [None] gl_state = (1, \<lparr>heap = [gl_config, gl_config], fetched = []\<rparr>)"
  by (simp add: g_cloneOptions_def alloc_def assign_def gl_state_def gl_client_def obj_at_def)

lemma gl_headers_eval:
  "stat_data decimal_number
     [(''content-type'', ''text/plain''), (''x-gitlab-file-name'', ''a.txt''),
      (''x-gitlab-size'', ''12''), (''x-gitlab-type'', ''blob'')] =
   VObj [(''file-name'', VStr ''a.txt''), (''size'', VNum 12), (''type'', VStr ''blob'')]"
  by (simp add: stat_data_def header_fields_def assign_field_def decimal_number_def)

lemma gitlab_stat_answered:
  assumes "buildURI (encodeURIComponent (path_text p)) (assign (obj_at (heap st) (g_opts c)) [options]) = Inr u"
    and "net (map snd (fetched st))
           \<lparr>url = u, rmethod = Some ''HEAD'',
            headers = [(''PRIVATE-TOKEN'',
                        to_string_opt (opt_get (assign (obj_at (heap st) (g_opts c)) [options]) ''secretAccessKey''))],
            body = NoBody\<rparr> = Some res"
  shows "fst (gitlab_stat net num c p options st) = Resolved (stat_data num (rheaders res))"
  using assms
  by (simp add: gitlab_stat_def g_cloneOptions_def alloc_def g_request_def fetch_def then_pure_def obj_at_def)

lemma gl_stat_eval:
  "fst (gitlab_stat net_gitlab decimal_number gl_client (PathStr ''a.txt'') None gl_state) =
     Resolved (VObj [(''file-name'', VStr ''a.txt''), (''size'', VNum 12), (''type'', VStr ''blob'')])"
proof -
  have c: "assign (obj_at (heap gl_state) (g_opts gl_client)) [None] = gl_config"
    by (simp add: assign_def gl_state_def gl_client_def obj_at_def)
  obtain u where u: "buildURI (encodeURIComponent (path_text (PathStr ''a.txt''))) gl_config = Inr u"
    using buildURI_ok[of gl_config] by (auto simp: gl_config_def opt_get_def)
  show ?thesis
    using gitlab_stat_answered[of "PathStr ''a.txt''" gl_state gl_client None u net_gitlab _ decimal_number]
    unfolding c using u
    by (simp add: net_gitlab_def gl_headers_eval)
qed

subsection \<open>Requests of the content-management adapter\<close>

lemma snd_then_pure: "snd (then_pure p f) = snd p"
  by (cases p; cases "fst p") (auto simp: then_pure_def split: sum.splits)

lemma snd_catch_pure: "snd (catch_pure p h) = snd p"
  by (cases p; cases "fst p") (auto simp: catch_pure_def)

lemma snd_fetch: "snd (fetch net s r st) = st\<lparr>fetched := fetched st @ [(s, r)]\<rparr>"
  by (simp add: fetch_def split: option.splits)

lemma fst_fetch:
  "fst (fetch net s r st) =
     (case net (map snd (fetched st)) r of None \<Rightarrow> Rejected FetchError | Some res \<Rightarrow> Resolved res)"
  by (simp add: fetch_def split: option.splits)

lemma fetch_resolved:
  "fetch net s r st = (Resolved res, st') \<Longrightarrow>
     fetched st' = fetched st @ [(s, r)] \<and> heap st' = heap st \<and> net (map snd (fetched st)) r = Some res"
  by (auto simp: fetch_def split: option.splits)

lemma a_request_resolved:
  assumes "a_request net u t opts m b hdrs st = (Resolved res, st')"
  shows "\<exists>r sent. map snd (fetched st') = sent @ [r] \<and> net sent r = Some res"
proof -
  obtain o1 st1 where g: "getTicket net t opts st = (o1, st1)"
    by (cases "getTicket net t opts st") auto
  with assms obtain tk where "o1 = Resolved tk"
    by (cases o1) (auto simp: a_request_def)
  with assms g obtain r where "fetch net Request r st1 = (Resolved res, st')"
    by (auto simp: a_request_def)
  from fetch_resolved[OF this] show ?thesis
    by - (rule exI[of _ r], rule exI[of _ "map snd (fetched st1)"], simp)
qed

lemma update_other: "k \<noteq> k' \<Longrightarrow> js_prop (VObj (AList.update k v kvs)) k' = js_prop (VObj kvs) k'"
  by (simp add: update_conv')

lemma update_same: "js_prop (VObj (AList.update k v kvs)) k = v"
  by (simp add: update_conv')

lemma delete_other: "k \<noteq> k' \<Longrightarrow> js_prop (VObj (AList.delete k kvs)) k' = js_prop (VObj kvs) k'"
  by (simp add: delete_conv')

lemma normalize_entry_size:
  assumes "normalize_entry d = Inr m"
  shows "js_prop m ''size'' = js_prop (js_prop (js_prop d ''entry'') ''content'') ''length''
         \<and> \<not> has_own (js_prop m ''content'') ''sizeInBytes''
         \<and> \<not> has_own (js_prop m ''content'') ''mimeType''"
proof -
  from assms obtain kvs where e: "js_prop d ''entry'' = VObj kvs"
    by (auto simp: normalize_entry_def Let_def split: sum.splits if_splits jsval.splits)
  let ?c = "js_prop (VObj kvs) ''content''"
  show ?thesis
  proof (cases "\<exists>ckvs. ?c = VObj ckvs")
    case True
    then obtain ckvs where c: "?c = VObj ckvs" by blast
    with assms e show ?thesis
      by (auto simp: normalize_entry_def Let_def update_other update_same delete_other nullish_def
               update_conv' delete_conv'
               split: sum.splits if_splits)
  next
    case False
    with assms e show ?thesis
      by (cases ?c) (auto simp: normalize_entry_def Let_def update_other update_same delete_other nullish_def
               update_conv' delete_conv'
               split: sum.splits if_splits)
  qed
qed

lemma alfresco_stat_from_response:
  assumes "fst (alfresco_stat net c p options st) = Resolved m"
  shows "\<exists>r sent res d. map snd (fetched (snd (alfresco_stat net c p options st))) = sent @ [r]
           \<and> net sent r = Some res \<and> rjson res = Some d \<and> normalize_entry d = Inr m"
proof -
  obtain a st0 where cl: "a_cloneOptions c [options] st = (a, st0)"
    by (cases "a_cloneOptions c [options] st") auto
  let ?opts = "obj_at (heap st0) a"
  from assms cl obtain bp where bp: "buildPath p ?opts False = Inr bp"
    by (cases "buildPath p ?opts False") (auto simp: alfresco_stat_def)
  let ?rq = "a_request net (''/nodes/-my-?relativePath='' @ bp) (opt_get ?opts ''ticket'') ?opts None NoBody [] st0"
  have eq: "alfresco_stat net c p options st = then_pure (then_pure ?rq res_json) normalize_entry"
    using cl bp by (simp add: alfresco_stat_def Let_def)
  obtain o1 st' where rq: "?rq = (o1, st')" by (cases ?rq) auto
  from assms eq rq obtain res where o1: "o1 = Resolved res"
    by (cases o1) (auto simp: then_pure_def)
  from assms eq rq o1 obtain d where d: "rjson res = Some d" and n: "normalize_entry d = Inr m"
    by (auto simp: then_pure_def res_json_def split: option.splits sum.splits)
  from eq rq have "snd (alfresco_stat net c p options st) = st'"
    by (simp add: snd_then_pure)
  moreover from rq o1 have "?rq = (Resolved res, st')" by simp
  from a_request_resolved[OF this] obtain r sent where
    "map snd (fetched st') = sent @ [r]" "net sent r = Some res"
    by blast
  ultimately show ?thesis using d n
    by - (rule exI[of _ r], rule exI[of _ sent], rule exI[of _ res], rule exI[of _ d], simp)
qed

text \<open>
  C6. When \<open>stat\<close> of the content-management client resolves with \<open>m\<close>, the last
  call of \<open>fetch\<close> was answered by a document \<open>d\<close>, the \<open>size\<close> of \<open>m\<close> is
  \<open>d.entry.content.length\<close>, and the \<open>content\<close> of \<open>m\<close> has neither a
  \<open>sizeInBytes\<close> nor a \<open>mimeType\<close> field.
\<close>

theorem alfresco_stat_size_is_content_length:
  "fst (alfresco_stat net ac p options st) = Resolved m \<longrightarrow>
     (\<exists>r sent res d.
        map snd (fetched (snd (alfresco_stat net ac p options st))) = sent @ [r] \<and>
        net sent r = Some res \<and> rjson res = Some d \<and>
        js_prop m ''size'' = js_prop (js_prop (js_prop d ''entry'') ''content'') ''length'' \<and>
        \<not> has_own (js_prop m ''content'') ''sizeInBytes'' \<and>
        \<not> has_own (js_prop m ''content'') ''mimeType'')"
proof
  assume a: "fst (alfresco_stat net ac p options st) = Resolved m"
  then obtain r sent res d where
    f: "map snd (fetched (snd (alfresco_stat net ac p options st))) = sent @ [r]"
    and n: "net sent r = Some res" "rjson res = Some d" "normalize_entry d = Inr m"
    using alfresco_stat_from_response by blast
  with normalize_entry_size[OF n(3)] show "\<exists>r sent res d.
        map snd (fetched (snd (alfresco_stat net ac p options st))) = sent @ [r] \<and>
        net sent r = Some res \<and> rjson res = Some d \<and>
        js_prop m ''size'' = js_prop (js_prop (js_prop d ''entry'') ''content'') ''length'' \<and>
        \<not> has_own (js_prop m ''content'') ''sizeInBytes'' \<and>
        \<not> has_own (js_prop m ''content'') ''mimeType''"
    by - (rule exI[of _ r], rule exI[of _ sent], rule exI[of _ res], rule exI[of _ d], simp)
qed

lemma createTicket_state:
  "snd (createTicket net opts st) = st\<lparr>fetched := fetched st @ [(CreateTicket, ticket_request opts)]\<rparr>"
  by (simp add: createTicket_def snd_then_pure snd_fetch)

lemma createTicket_answered:
  assumes "net (map snd (fetched st)) (ticket_request opts) = Some res" and "rjson res = Some d"
    and "\<not> nullish d" and "\<not> nullish (js_prop d ''entry'')"
  shows "fst (createTicket net opts st) =
           Resolved (VStr (btoa (to_string (js_prop (js_prop d ''entry'') ''id''))))"
  using assms
  by (simp add: createTicket_def then_pure_def fetch_def res_json_def get_prop_def)

lemma getTicket_cached:
  "truthy_opt (opt_get (obj_at (heap st) a) ''id'') \<Longrightarrow>
     getTicket net (Ref a) opts st = (Resolved (opt_get (obj_at (heap st) a) ''id''), st)"
  by (simp add: getTicket_def Let_def)

lemma getTicket_acquires:
  assumes "\<not> truthy_opt (opt_get (obj_at (heap st) a) ''id'')"
    and "fst (createTicket net opts st) = Resolved i"
  shows "getTicket net (Ref a) opts st =
           (Resolved (Val i),
            st\<lparr>heap := (heap st)[a := (obj_at (heap st) a)(''id'' \<mapsto> Val i)],
               fetched := fetched st @ [(CreateTicket, ticket_request opts)]\<rparr>)"
proof -
  obtain o1 st1 where c: "createTicket net opts st = (o1, st1)"
    by (cases "createTicket net opts st") auto
  with assms(2) have o1: "o1 = Resolved i" by simp
  from c createTicket_state[of net opts st]
  have st1: "st1 = st\<lparr>fetched := fetched st @ [(CreateTicket, ticket_request opts)]\<rparr>" by simp
  show ?thesis using assms(1) c o1 st1 by (simp add: getTicket_def Let_def)
qed

lemma getTicket_fails:
  assumes "\<not> truthy_opt (opt_get (obj_at (heap st) a) ''id'')"
    and "fst (createTicket net opts st) = Rejected e"
  shows "getTicket net (Ref a) opts st =
           (Rejected e, st\<lparr>fetched := fetched st @ [(CreateTicket, ticket_request opts)]\<rparr>)"
proof -
  obtain o1 st1 where c: "createTicket net opts st = (o1, st1)"
    by (cases "createTicket net opts st") auto
  with assms(2) have o1: "o1 = Rejected e" by simp
  from c createTicket_state[of net opts st]
  have st1: "st1 = st\<lparr>fetched := fetched st @ [(CreateTicket, ticket_request opts)]\<rparr>" by simp
  show ?thesis using assms(1) c o1 st1 by (simp add: getTicket_def Let_def)
qed

lemma a_request_cached:
  "truthy_opt (opt_get (obj_at (heap st) a) ''id'') \<Longrightarrow>
     a_request net u (Ref a) opts m b hdrs st =
       fetch net Request
         \<lparr>url = buildUrl (''/alfresco/versions/1'' @ u) opts, rmethod = m,
          headers = fold (\<lambda>(k, v). AList.update k v) hdrs
                      [(''Authorization'', ''Basic '' @ to_string_opt (opt_get (obj_at (heap st) a) ''id''))],
          body = b\<rparr> st"
  by (simp add: a_request_def getTicket_cached)

lemma buildPath_ok:
  "str_arg (opt_get opts ''bucket'') \<noteq> None \<Longrightarrow> \<exists>bp. buildPath (PathStr p) opts dir = Inr bp"
  by (auto simp: buildPath_def posix_join_def Let_def)

lemma fst_gf_stat_op:
  "fst (gf_stat_op net num f st) =
     (if truthy (gf_stat f) then Resolved (gf_stat f)
      else (case fst (gitlab_stat net num (gf_client f) (gf_path f) (Some (obj_at (heap st) (gf_options f))) st) of
              Resolved m \<Rightarrow> Resolved m
            | Rejected e \<Rightarrow> Rejected e
            | Thrown e \<Rightarrow> Rejected e))"
proof (cases "truthy (gf_stat f)")
  case True
  then show ?thesis by (simp add: gf_stat_op_def)
next
  case False
  let ?r = "gitlab_stat net num (gf_client f) (gf_path f) (Some (obj_at (heap st) (gf_options f))) st"
  obtain o1 st1 where r: "?r = (o1, st1)" by (cases ?r) auto
  show ?thesis
  proof (cases o1)
    case (Resolved m)
    with r have "fst ?r = Resolved m" by simp
    then have "\<not> nullish m" using gitlab_stat_object by blast
    with False r Resolved show ?thesis by (simp add: gf_stat_op_def get_prop_def)
  qed (use False r in \<open>simp_all add: gf_stat_op_def\<close>)
qed

lemma fst_af_stat_op:
  "fst (af_stat_op net f st) =
     (if truthy (af_stat f) then Resolved (af_stat f)
      else (case fst (alfresco_stat net (af_client f) (af_path f) (Some (obj_at (heap st) (af_options f))) st) of
              Resolved m \<Rightarrow> Resolved m
            | Rejected e \<Rightarrow> Rejected e
            | Thrown e \<Rightarrow> Rejected e))"
proof (cases "truthy (af_stat f)")
  case True
  then show ?thesis by (simp add: af_stat_op_def)
next
  case False
  let ?r = "alfresco_stat net (af_client f) (af_path f) (Some (obj_at (heap st) (af_options f))) st"
  obtain o1 st1 where r: "?r = (o1, st1)" by (cases ?r) auto
  show ?thesis
  proof (cases o1)
    case (Resolved m)
    with r have "fst ?r = Resolved m" by simp
    then have "\<not> nullish m" using alfresco_stat_object by blast
    with False r Resolved show ?thesis by (simp add: af_stat_op_def get_prop_def)
  qed (use False r in \<open>simp_all add: af_stat_op_def\<close>)
qed

lemma gl_handle_state_eval: "gl_handle_state = \<lparr>heap = [gl_config, gl_config], fetched = []\<rparr>"
  by (simp add: gl_handle_state_def gitlab_file_def g_cloneOptions_def alloc_def gl_state_def
        gl_client_def assign_def obj_at_def)

lemma af_handle_state_eval:
  "af_handle_state = \<lparr>heap = [af_config, Map.empty, af_config(''ticket'' \<mapsto> Ref 1)], fetched = []\<rparr>"
  by (simp add: af_handle_state_def alfresco_file_def a_cloneOptions_def alloc_def af_state_def
        af_client0_def assign_def obj_at_def)

lemma map_add_same: "m ++ m = m"
  by (rule ext) (simp add: map_add_def split: option.splits)

lemma gl_handle_stat_eval:
  "fst (gf_stat_op net_gitlab decimal_number gl_handle gl_handle_state) =
     Resolved (VObj [(''file-name'', VStr ''a.txt''), (''size'', VNum 12), (''type'', VStr ''blob'')])"
proof -
  have c: "assign (obj_at (heap gl_handle_state) (g_opts gl_client)) [Some (obj_at (heap gl_handle_state) 1)] = gl_config"
    by (simp add: assign_def gl_handle_state_eval gl_client_def obj_at_def map_add_same)
  obtain u where u: "buildURI (encodeURIComponent (path_text (PathStr ''a.txt''))) gl_config = Inr u"
    using buildURI_ok[of gl_config] by (auto simp: gl_config_def opt_get_def)
  have "fst (gitlab_stat net_gitlab decimal_number gl_client (PathStr ''a.txt'')
               (Some (obj_at (heap gl_handle_state) 1)) gl_handle_state) =
        Resolved (VObj [(''file-name'', VStr ''a.txt''), (''size'', VNum 12), (''type'', VStr ''blob'')])"
    using gitlab_stat_answered[of "PathStr ''a.txt''" gl_handle_state gl_client
            "Some (obj_at (heap gl_handle_state) 1)" u net_gitlab _ decimal_number]
    unfolding c using u
    by (simp add: net_gitlab_def gl_headers_eval)
  then show ?thesis
    by (simp add: fst_gf_stat_op gl_handle_eval)
qed

lemma node_json_normalized:
  "normalize_entry node_json =
     Inr (VObj [(''id'', VStr ''n-1''), (''name'', VStr ''123.json''),
                (''nodeType'', VStr ''cm:content''),
                (''content'', VObj [(''length'', VNum 7)]),
                (''type'', VStr ''cm:content''), (''size'', VNum 7),
                (''lastModified'', VDate VUndef)])"
  by (simp add: normalize_entry_def node_json_def get_prop_def nullish_def Let_def)

lemma af_stat_eval_gen:
  assumes h: "heap st = [af_config, Map.empty] @ rest"
    and o: "options = None \<or> options = Some (af_config(''ticket'' \<mapsto> Ref (Suc 0)))"
  shows "fst (alfresco_stat net_alfresco af_client0 (PathStr ''123.json'') options st) =
     Resolved (VObj [(''id'', VStr ''n-1''), (''name'', VStr ''123.json''),
                     (''nodeType'', VStr ''cm:content''),
                     (''content'', VObj [(''length'', VNum 7)]),
                     (''type'', VStr ''cm:content''), (''size'', VNum 7),
                     (''lastModified'', VDate VUndef)])"
proof -
  let ?merged = "af_config(''ticket'' \<mapsto> Ref (Suc 0))"
  let ?st0 = "st\<lparr>heap := heap st @ [?merged]\<rparr>"
  have m: "assign ((obj_at (heap st) 0)(''ticket'' \<mapsto> Ref (Suc 0))) [options] = ?merged"
    using o h by (auto simp: assign_def obj_at_def map_add_same)
  have cl: "a_cloneOptions af_client0 [options] st = (length (heap st), ?st0)"
    using m by (simp add: a_cloneOptions_def alloc_def af_client0_def)
  have at: "obj_at (heap st @ [?merged]) (length (heap st)) = ?merged"
    by (simp add: obj_at_def)
  obtain bp where bp: "buildPath (PathStr ''123.json'') ?merged False = Inr bp"
    using buildPath_ok[of ?merged] by (auto simp: af_config_def opt_get_def)
  have tk: "opt_get ?merged ''ticket'' = Ref (Suc 0)"
    by (simp add: opt_get_def)
  have slot: "obj_at (heap ?st0) 1 = Map.empty"
    using h by (simp add: obj_at_def)
  have empty: "\<not> truthy_opt (opt_get (obj_at (heap ?st0) (Suc 0)) ''id'')"
    using h by (simp add: obj_at_def opt_get_def)
  have ct: "fst (createTicket net_alfresco ?merged ?st0) = Resolved (VStr (btoa ''TICKET_1''))"
    using createTicket_answered[of net_alfresco ?st0 ?merged
            "Response 201 [] (Some (VObj [(''entry'', VObj [(''id'', VStr ''TICKET_1'')])]))"
            "VObj [(''entry'', VObj [(''id'', VStr ''TICKET_1'')])]"]
    by (simp add: net_alfresco_def ticket_request_def nullish_def)
  note g = getTicket_acquires[OF empty ct]
  have rq: "fst (a_request net_alfresco (''/nodes/-my-?relativePath='' @ bp) (Ref (Suc 0)) ?merged None NoBody [] ?st0)
              = Resolved (Response 200 [] (Some node_json))"
    unfolding a_request_def g by (simp add: fst_fetch net_alfresco_def)
  have "alfresco_stat net_alfresco af_client0 (PathStr ''123.json'') options st =
          then_pure (then_pure
             (a_request net_alfresco (''/nodes/-my-?relativePath='' @ bp) (Ref (Suc 0)) ?merged None NoBody [] ?st0)
             res_json) normalize_entry"
    by (simp add: alfresco_stat_def cl at bp tk Let_def)
  moreover obtain st9 where
    "a_request net_alfresco (''/nodes/-my-?relativePath='' @ bp) (Ref (Suc 0)) ?merged None NoBody [] ?st0
       = (Resolved (Response 200 [] (Some node_json)), st9)"
    using rq by (cases "a_request net_alfresco (''/nodes/-my-?relativePath='' @ bp) (Ref (Suc 0)) ?merged None NoBody [] ?st0") auto
  ultimately show ?thesis
    by (simp add: then_pure_def res_json_def node_json_normalized)
qed

lemma af_stat_eval:
  "fst (alfresco_stat net_alfresco af_client0 (PathStr ''123.json'') None af_state) =
     Resolved (VObj [(''id'', VStr ''n-1''), (''name'', VStr ''123.json''),
                     (''nodeType'', VStr ''cm:content''),
                     (''content'', VObj [(''length'', VNum 7)]),
                     (''type'', VStr ''cm:content''), (''size'', VNum 7),
                     (''lastModified'', VDate VUndef)])"
  by (rule af_stat_eval_gen[of _ "[]"]) (simp_all add: af_state_def)

lemma af_handle_stat_eval:
  "fst (af_stat_op net_alfresco af_handle af_handle_state) =
     Resolved (VObj [(''id'', VStr ''n-1''), (''name'', VStr ''123.json''),
                     (''nodeType'', VStr ''cm:content''),
                     (''content'', VObj [(''length'', VNum 7)]),
                     (''type'', VStr ''cm:content''), (''size'', VNum 7),
                     (''lastModified'', VDate VUndef)])"
proof -
  have "obj_at (heap af_handle_state) 2 = af_config(''ticket'' \<mapsto> Ref 1)"
    by (simp add: af_handle_state_eval obj_at_def)
  then show ?thesis
    using af_stat_eval_gen[of af_handle_state "[af_config(''ticket'' \<mapsto> Ref (Suc 0))]"
            "Some (af_config(''ticket'' \<mapsto> Ref (Suc 0)))"]
    by (simp add: fst_af_stat_op af_handle_eval af_handle_state_eval)
qed

subsection \<open>Witnesses of the handle properties\<close>

theorem slice_records_in_shared_options_witness:
  "gf_options gl_handle < length (heap gl_handle_state)
   \<and> af_options af_handle < length (heap af_handle_state)
   \<and> gf_options (fst (gf_slice gl_handle (VNum 0) (VNum 5) (VStr ''text/plain'') gl_handle_state)) = gf_options gl_handle
   \<and> opt_get (obj_at (heap (snd (gf_slice gl_handle (VNum 0) (VNum 5) (VStr ''text/plain'') gl_handle_state)))
         (gf_options gl_handle)) ''sliceEnd'' = Val (VNum 5)
   \<and> af_options (fst (af_slice af_handle (VNum 0) (VNum 5) (VStr ''text/plain'') af_handle_state)) = af_options af_handle
   \<and> opt_get (obj_at (heap (snd (af_slice af_handle (VNum 0) (VNum 5) (VStr ''text/plain'') af_handle_state)))
         (af_options af_handle)) ''sliceEnd'' = Val (VNum 5)"
proof -
  have g: "gf_options gl_handle < length (heap gl_handle_state)"
    by (simp add: gl_handle_eval gl_handle_state_heap)
  have a: "af_options af_handle < length (heap af_handle_state)"
    by (simp add: af_handle_eval af_handle_state_heap)
  show ?thesis
    using g a
      slice_records_in_shared_options[of gl_handle gl_handle_state "VNum 0" "VNum 5" "VStr ''text/plain''"
        af_handle af_handle_state]
    by (auto simp: opt_get_def split: prod.splits)
qed

theorem stat_cache_is_sticky_witness:
  "fst (gf_stat_op net_gitlab decimal_number gl_handle gl_handle_state) =
     Resolved (VObj [(''file-name'', VStr ''a.txt''), (''size'', VNum 12), (''type'', VStr ''blob'')])
   \<and> fst (gf_stat_op net_denied (\<lambda>s. VNaN)
            (fst (snd (gf_stat_op net_gitlab decimal_number gl_handle gl_handle_state))) gl_state) =
     Resolved (VObj [(''file-name'', VStr ''a.txt''), (''size'', VNum 12), (''type'', VStr ''blob'')])
   \<and> fetched (snd (snd (gf_stat_op net_denied (\<lambda>s. VNaN)
            (fst (snd (gf_stat_op net_gitlab decimal_number gl_handle gl_handle_state))) gl_state))) = []
   \<and> fst (af_stat_op net_alfresco af_handle af_handle_state) =
     Resolved (VObj [(''id'', VStr ''n-1''), (''name'', VStr ''123.json''),
                     (''nodeType'', VStr ''cm:content''),
                     (''content'', VObj [(''length'', VNum 7)]),
                     (''type'', VStr ''cm:content''), (''size'', VNum 7),
                     (''lastModified'', VDate VUndef)])
   \<and> fst (af_stat_op net_denied
            (fst (snd (af_stat_op net_alfresco af_handle af_handle_state))) af_state) =
     Resolved (VObj [(''id'', VStr ''n-1''), (''name'', VStr ''123.json''),
                     (''nodeType'', VStr ''cm:content''),
                     (''content'', VObj [(''length'', VNum 7)]),
                     (''type'', VStr ''cm:content''), (''size'', VNum 7),
                     (''lastModified'', VDate VUndef)])"
  using gl_handle_stat_eval af_handle_stat_eval
    stat_cache_is_sticky[of net_gitlab decimal_number gl_handle gl_handle_state _
       net_denied "\<lambda>s. VNaN" gl_state net_alfresco af_handle af_handle_state _ net_denied af_state]
  by (simp add: gl_state_def)

theorem alfresco_stat_size_is_content_length_witness:
  "fst (alfresco_stat net_alfresco af_client0 (PathStr ''123.json'') None af_state) =
     Resolved (VObj [(''id'', VStr ''n-1''), (''name'', VStr ''123.json''),
                     (''nodeType'', VStr ''cm:content''),
                     (''content'', VObj [(''length'', VNum 7)]),
                     (''type'', VStr ''cm:content''), (''size'', VNum 7),
                     (''lastModified'', VDate VUndef)])
   \<and> (\<exists>r sent res d.
        map snd (fetched (snd (alfresco_stat net_alfresco af_client0 (PathStr ''123.json'') None af_state))) = sent @ [r] \<and>
        net_alfresco sent r = Some res \<and> rjson res = Some d \<and>
        VNum 7 = js_prop (js_prop (js_prop d ''entry'') ''content'') ''length'')"
  using af_stat_eval
    alfresco_stat_size_is_content_length[of net_alfresco af_client0 "PathStr ''123.json''" None af_state
      "VObj [(''id'', VStr ''n-1''), (''name'', VStr ''123.json''),
                     (''nodeType'', VStr ''cm:content''),
                     (''content'', VObj [(''length'', VNum 7)]),
                     (''type'', VStr ''cm:content''), (''size'', VNum 7),
                     (''lastModified'', VDate VUndef)]"]
  by auto

subsection \<open>write and delete\<close>

lemma gitlab_write_answered:
  assumes "buildURI (encodeURIComponent (path_text p)) (assign (obj_at (heap st) (g_opts c)) [options]) = Inr u"
    and "net (map snd (fetched st))
           \<lparr>url = u, rmethod = Some ''POST'',
            headers = [(''PRIVATE-TOKEN'',
                        to_string_opt (opt_get (assign (obj_at (heap st) (g_opts c)) [options]) ''secretAccessKey''))],
            body = FormData [(''content'', FPayload data),
                             (''commit_message'', FText ''Uploaded a file''),
                             (''branch'', FText (to_string_opt
                                (opt_get (assign (obj_at (heap st) (g_opts c)) [options]) ''branch'')))]\<rparr>
         = Some res"
  shows "fst (gitlab_write net c p data options st) =
           Resolved (if status res = 201 then js_or (payload_size data) (payload_length data) else VUndef)"
  using assms
  by (simp add: gitlab_write_def g_cloneOptions_def alloc_def g_request_def fetch_def then_pure_def
        obj_at_def Let_def)

lemma gl_write_eval:
  "fst (gitlab_write net_gitlab gl_client (PathStr p) data None gl_state) =
     Resolved (js_or (payload_size data) (payload_length data))"
proof -
  have c: "assign (obj_at (heap gl_state) (g_opts gl_client)) [None] = gl_config"
    by (simp add: assign_def gl_state_def gl_client_def obj_at_def)
  obtain u where u: "buildURI (encodeURIComponent (path_text (PathStr p))) gl_config = Inr u"
    using buildURI_ok[of gl_config] by (auto simp: gl_config_def opt_get_def)
  show ?thesis
    using gitlab_write_answered[of "PathStr p" gl_state gl_client None u net_gitlab data
            "Response 201 [] None"]
    unfolding c using u
    by (simp add: net_gitlab_def)
qed

text \<open>
  C4 (the code departs from the claim). The server answers 201; a string payload
  resolves with its length, but an \<open>ArrayBuffer\<close> of eight bytes and an empty
  \<open>Blob\<close> resolve with \<open>undefined\<close>: the first has neither \<open>size\<close> nor
  \<open>length\<close>, the second has the falsy \<open>size\<close> zero.
\<close>

theorem gitlab_write_size_missed:
  "fst (gitlab_write net_gitlab gl_client (PathStr ''hello.txt'') (PString ''Hello World!'') None gl_state)
     = Resolved (VNum 12)
   \<and> fst (gitlab_write net_gitlab gl_client (PathStr ''a.bin'') (PArrayBuffer 8) None gl_state)
     = Resolved VUndef
   \<and> fst (gitlab_write net_gitlab gl_client (PathStr ''empty.txt'') (PBlob 0) None gl_state)
     = Resolved VUndef"
  by (simp add: gl_write_eval js_or_def)

text \<open>
  C5 (the code departs from the claim). \<open>delete\<close> of the source-control client
  throws a ReferenceError for every name and sends nothing.
\<close>

theorem gitlab_delete_throws:
  "fst (gitlab_delete net gc p options st) = Thrown ReferenceError
   \<and> fetched (snd (gitlab_delete net gc p options st)) = fetched st"
  by (simp add: gitlab_delete_def)

text \<open>
  The content-management client, with a ticket in its slot, does send the
  \<open>DELETE\<close> to \<open>/nodes/{name}\<close> and resolves with \<open>undefined\<close> when it is answered.
\<close>

lemma alfresco_delete_sends:
  assumes "truthy_opt (opt_get (obj_at (heap st) (a_ticket c)) ''id'')"
  shows "\<exists>r. fetched (snd (alfresco_delete net c p options st)) = fetched st @ [(Request, r)]
             \<and> rmethod r = Some ''DELETE''
             \<and> url r = to_string_opt (opt_get (assign ((obj_at (heap st) (a_opts c))(''ticket'' \<mapsto> Ref (a_ticket c))) [options]) ''endpoint'')
                       @ ''/alfresco/api/-default-/public/alfresco/versions/1/nodes/'' @ path_text p
             \<and> (net (map snd (fetched st)) r \<noteq> None \<longrightarrow>
                  fst (alfresco_delete net c p options st) = Resolved VUndef)"
proof -
  have t: "a_ticket c < length (heap st)"
    using assms by (auto simp: obj_at_def opt_get_def split: if_splits)
  then have "truthy_opt (opt_get (obj_at (heap st @ [x]) (a_ticket c)) ''id'')" for x
    using assms by (simp add: obj_at_def nth_append)
  then show ?thesis
    by (auto simp: alfresco_delete_def a_cloneOptions_def alloc_def Let_def a_request_cached
          snd_then_pure snd_fetch fst_fetch then_pure_def fetch_def buildUrl_def obj_at_def
          split: option.splits)
qed

subsection \<open>Joining plain segments\<close>

lemma split_on_nonempty: "split_on c s \<noteq> []"
  by (induction s) (auto split: list.splits)

lemma split_on_append: "split_on c (a @ c # b) = split_on c a @ split_on c b"
proof (induction a)
  case Nil
  show ?case by simp
next
  case (Cons x a)
  then show ?case
    using split_on_nonempty[of c a] by (cases "split_on c a") auto
qed

lemma join_split_on: "join_with [c] (split_on c s) = s"
proof (induction s)
  case Nil
  show ?case by simp
next
  case (Cons x s)
  obtain h t where ht: "split_on c s = h # t"
    using split_on_nonempty[of c s] by (cases "split_on c s") auto
  with Cons show ?case
    by (cases t) auto
qed

lemma foldl_norm_step_plain:
  "list_all (\<lambda>seg. seg \<noteq> [] \<and> seg \<noteq> ''.'' \<and> seg \<noteq> ''..'') segs \<Longrightarrow>
     foldl (norm_step b) acc segs = acc @ segs"
  by (induction segs arbitrary: acc) (auto simp: norm_step_def)

lemma plain_segments_ends:
  assumes "plain_segments s"
  shows "s \<noteq> [] \<and> hd s \<noteq> CHR ''/'' \<and> last s \<noteq> CHR ''/''"
proof -
  have 1: "s \<noteq> []" using assms by (auto simp: plain_segments_def)
  have 2: "hd s \<noteq> CHR ''/''"
    using assms 1 by (cases s) (auto simp: plain_segments_def)
  have 3: "last s \<noteq> CHR ''/''"
  proof
    assume "last s = CHR ''/''"
    with 1 have "s = butlast s @ CHR ''/'' # []" by (metis append_butlast_last_id)
    then have "split_on CHR ''/'' s = split_on CHR ''/'' (butlast s) @ [[]]"
      using split_on_append[of "CHR ''/''" "butlast s" "[]"] by simp
    with assms show False by (simp add: plain_segments_def)
  qed
  from 1 2 3 show ?thesis by simp
qed

lemma normalize_plain: "plain_segments s \<Longrightarrow> normalize s = s"
  using plain_segments_ends[of s]
  by (simp add: normalize_def normalizeString_def Let_def plain_segments_def
        foldl_norm_step_plain join_split_on[of "CHR ''/''", simplified])

lemma plain_segments_join:
  "plain_segments a \<Longrightarrow> plain_segments b \<Longrightarrow> plain_segments (a @ ''/'' @ b)"
  using split_on_append[of "CHR ''/''" a b] by (simp add: plain_segments_def)

lemma plain_raw: "plain_segments ''-/raw''"
  by (simp add: plain_segments_def)

lemma dotdot_example:
  "normalize ''gitlab.example.com/team/docs/-/raw/main/docs/../a.txt'' =
     ''gitlab.example.com/team/docs/-/raw/main/a.txt''"
  by (simp add: normalize_def normalizeString_def norm_step_def Let_def)

lemma gitlab_presign_sends_nothing:
  "fetched (snd (gitlab_presign gc file_path options st)) = fetched st"
  by (simp add: gitlab_presign_def g_cloneOptions_def alloc_def Let_def)

lemma gitlab_presign_value:
  assumes "opt_get (assign (obj_at (heap st) (g_opts gc)) [options]) ''endpoint'' = Val (VStr e)"
    and "opt_get (assign (obj_at (heap st) (g_opts gc)) [options]) ''bucket'' = Val (VStr b)"
    and "opt_get (assign (obj_at (heap st) (g_opts gc)) [options]) ''branch'' = Val (VStr br)"
    and "e \<noteq> []" "b \<noteq> []" "br \<noteq> []" "p \<noteq> []"
  shows "fst (gitlab_presign gc (PathStr p) options st) =
           Inr (normalize (e @ ''/'' @ b @ ''/-/raw/'' @ br @ ''/'' @ p) @ ''?inline=''
                @ (if truthy_opt (opt_get (assign (obj_at (heap st) (g_opts gc)) [options]) ''inline'')
                   then ''true'' else ''false''))"
  using assms
  by (simp add: gitlab_presign_def g_cloneOptions_def alloc_def Let_def obj_at_def posix_join_def)

text \<open>
  Where \<open>path.join\<close> finds nothing to normalize, the result is the
  specification's string: the merged configuration gives \<open>endpoint\<close>,
  \<open>bucket\<close> and \<open>branch\<close> as strings, and these and the path are made of plain
  segments.
\<close>

lemma gitlab_presign_plain_segments:
  assumes "opt_get (assign (obj_at (heap st) (g_opts gc)) [options]) ''endpoint'' = Val (VStr endpoint)"
    and "opt_get (assign (obj_at (heap st) (g_opts gc)) [options]) ''bucket'' = Val (VStr bucket)"
    and "opt_get (assign (obj_at (heap st) (g_opts gc)) [options]) ''branch'' = Val (VStr branch)"
    and "plain_segments endpoint" "plain_segments bucket" "plain_segments branch" "plain_segments p"
  shows "fst (gitlab_presign gc (PathStr p) options st) =
            Inr (spec_presign_url endpoint bucket branch p
                   (truthy_opt (opt_get (assign (obj_at (heap st) (g_opts gc)) [options]) ''inline'')))"
proof -
  have ne: "endpoint \<noteq> []" "bucket \<noteq> []" "branch \<noteq> []" "p \<noteq> []"
    using assms(4-7) plain_segments_ends by blast+
  have "plain_segments (endpoint @ ''/'' @ bucket @ ''/'' @ ''-/raw'' @ ''/'' @ branch @ ''/'' @ p)"
    using assms(4-7) plain_raw by (intro plain_segments_join) simp_all
  then have "normalize (endpoint @ ''/'' @ bucket @ ''/-/raw/'' @ branch @ ''/'' @ p) =
               endpoint @ ''/'' @ bucket @ ''/-/raw/'' @ branch @ ''/'' @ p"
    using normalize_plain by fastforce
  with gitlab_presign_value[of st gc options endpoint bucket branch p] assms(1-3) ne
  show ?thesis by (simp add: spec_presign_url_def)
qed

lemma gl_merged: "assign (obj_at (heap gl_state) (g_opts gl_client)) [None] = gl_config"
  by (simp add: assign_def gl_state_def gl_client_def obj_at_def)

lemma gl_url_merged: "assign (obj_at (heap gl_url_state) (g_opts gl_client)) [None] = gl_url_config"
  by (simp add: assign_def gl_url_state_def gl_client_def obj_at_def)

text \<open>A \<open>..\<close> segment of the path is resolved by \<open>path.join\<close>.\<close>

lemma gitlab_presign_dot_segments:
  "fst (gitlab_presign gl_client (PathStr ''docs/../a.txt'') None gl_state) =
     Inr ''gitlab.example.com/team/docs/-/raw/main/a.txt?inline=false''"
proof -
  have c: "opt_get gl_config ''endpoint'' = Val (VStr ''gitlab.example.com'')"
    "opt_get gl_config ''bucket'' = Val (VStr ''team/docs'')"
    "opt_get gl_config ''branch'' = Val (VStr ''main'')"
    "opt_get gl_config ''inline'' = Val VUndef"
    by (simp_all add: gl_config_def opt_get_def)
  show ?thesis
    using gitlab_presign_value[of gl_state gl_client None "''gitlab.example.com''" "''team/docs''"
            "''main''" "''docs/../a.txt''"] c dotdot_example
    by (simp add: gl_merged)
qed

lemma scheme_example:
  "normalize ''http://localhost:9000/b/-/raw/main/123.json'' =
     ''http:/localhost:9000/b/-/raw/main/123.json''"
  by (simp add: normalize_def normalizeString_def norm_step_def Let_def)

text \<open>
  C3 (the code departs from the claim). \<open>presign\<close> of the source-control client
  sends nothing, but it does not return
  \<open>{endpoint}/{bucket}/-/raw/{branch}/{path}?inline={bool}\<close>: with the endpoint
  \<open>http://localhost:9000\<close>, bucket \<open>b\<close>, branch \<open>main\<close> and path
  \<open>123.json\<close> the two slashes after the scheme come back as one, because the URL
  is put together by \<open>path.join\<close>.
\<close>

theorem gitlab_presign_collapses_scheme:
  "fst (gitlab_presign gl_client (PathStr ''123.json'') None gl_url_state) =
     Inr ''http:/localhost:9000/b/-/raw/main/123.json?inline=false''
   \<and> spec_presign_url ''http://localhost:9000'' ''b'' ''main'' ''123.json'' False =
     ''http://localhost:9000/b/-/raw/main/123.json?inline=false''
   \<and> fst (gitlab_presign gl_client (PathStr ''123.json'') None gl_url_state) \<noteq>
     Inr (spec_presign_url ''http://localhost:9000'' ''b'' ''main'' ''123.json'' False)
   \<and> fetched (snd (gitlab_presign gl_client (PathStr ''123.json'') None gl_url_state)) = []"
proof -
  have c: "opt_get gl_url_config ''endpoint'' = Val (VStr ''http://localhost:9000'')"
    "opt_get gl_url_config ''bucket'' = Val (VStr ''b'')"
    "opt_get gl_url_config ''branch'' = Val (VStr ''main'')"
    "opt_get gl_url_config ''inline'' = Val VUndef"
    by (simp_all add: gl_url_config_def opt_get_def)
  have v: "fst (gitlab_presign gl_client (PathStr ''123.json'') None gl_url_state) =
     Inr ''http:/localhost:9000/b/-/raw/main/123.json?inline=false''"
    using gitlab_presign_value[of gl_url_state gl_client None "''http://localhost:9000''" "''b''"
            "''main''" "''123.json''"] c scheme_example
    by (simp add: gl_url_merged)
  have f: "fetched (snd (gitlab_presign gl_client (PathStr ''123.json'') None gl_url_state)) = []"
    by (simp add: gitlab_presign_sends_nothing gl_url_state_def)
  from v f show ?thesis by (simp add: spec_presign_url_def)
qed

subsection \<open>The ticket slot\<close>

lemma keeps_refl: "keeps st st"
  by (simp add: keeps_def)

lemma keeps_trans: "keeps st st1 \<Longrightarrow> keeps st1 st2 \<Longrightarrow> keeps st st2"
  by (auto simp: keeps_def)

lemma reuses_refl: "reuses c st st"
  by (simp add: reuses_def keeps_refl)

lemma cached_in_range: "ticket_cached c st \<Longrightarrow> a_ticket c < length (heap st)"
  by (auto simp: ticket_cached_def slot_id_def obj_at_def opt_get_def split: if_splits)

lemma keeps_slot:
  assumes "ticket_cached c st" and "keeps st st'"
  shows "slot_id c st' = slot_id c st"
proof -
  have r: "a_ticket c < length (heap st)" using assms(1) by (rule cached_in_range)
  with assms(2) have "(heap st' ! a_ticket c) ''id'' = (heap st ! a_ticket c) ''id''"
    and "a_ticket c < length (heap st')"
    by (auto simp: keeps_def)
  with r show ?thesis by (simp add: slot_id_def obj_at_def opt_get_def)
qed

lemma reuses_slot: "ticket_cached c st \<Longrightarrow> reuses c st st' \<Longrightarrow> slot_id c st' = slot_id c st"
  by (simp add: reuses_def keeps_slot)

lemma reuses_cached: "ticket_cached c st \<Longrightarrow> reuses c st st' \<Longrightarrow> ticket_cached c st'"
  using reuses_slot[of c st st'] by (simp add: ticket_cached_def)

lemma reuses_trans:
  assumes "ticket_cached c st" and "reuses c st st1" and "reuses c st1 st2"
  shows "reuses c st st2"
proof -
  have s: "slot_id c st1 = slot_id c st" using assms(1,2) by (rule reuses_slot)
  from assms(2) obtain n1 where n1: "fetched st1 = fetched st @ n1" "list_all (authorized (slot_id c st)) n1"
    by (auto simp: reuses_def)
  from assms(3) s obtain n2 where n2: "fetched st2 = fetched st1 @ n2" "list_all (authorized (slot_id c st)) n2"
    by (auto simp: reuses_def)
  have "fetched st2 = fetched st @ (n1 @ n2)" "list_all (authorized (slot_id c st)) (n1 @ n2)"
    using n1 n2 by simp_all
  moreover have "keeps st st2"
    using assms(2,3) keeps_trans by (auto simp: reuses_def)
  ultimately show ?thesis unfolding reuses_def by blast
qed

lemma keeps_handle:
  assumes "handle_of c st f" and "keeps st st'"
  shows "handle_of c st' f"
proof -
  have r: "af_options f < length (heap st)"
    using assms(1) by (auto simp: handle_of_def obj_at_def opt_get_def split: if_splits)
  with assms(2) have "(heap st' ! af_options f) ''ticket'' = (heap st ! af_options f) ''ticket''"
    and "af_options f < length (heap st')"
    by (auto simp: keeps_def)
  with r assms(1) show ?thesis by (simp add: handle_of_def obj_at_def opt_get_def)
qed

lemma keeps_alloc: "keeps st (st\<lparr>heap := heap st @ [ob]\<rparr>)"
  by (simp add: keeps_def nth_append)

lemma keeps_fetched: "keeps st (st\<lparr>fetched := xs\<rparr>)"
  by (simp add: keeps_def)

lemma a_cloneOptions_eq:
  "a_cloneOptions c [options] st =
     (length (heap st),
      st\<lparr>heap := heap st @ [assign ((obj_at (heap st) (a_opts c))(''ticket'' \<mapsto> Ref (a_ticket c))) [options]]\<rparr>)"
  by (simp add: a_cloneOptions_def alloc_def)

lemma clone_reuses: "reuses c st (snd (a_cloneOptions c [options] st))"
  by (simp add: a_cloneOptions_eq reuses_def keeps_alloc)

text \<open>Options that leave the client's slot in place: no \<open>ticket\<close>, or the slot itself.\<close>

lemma merged_ticket:
  assumes "options = None \<or> (\<exists>ov. options = Some ov \<and> (ov ''ticket'' = None \<or> ov ''ticket'' = Some (Ref t)))"
  shows "opt_get (assign (base(''ticket'' \<mapsto> Ref t)) [options]) ''ticket'' = Ref t"
  using assms by (auto simp: assign_def opt_get_def map_add_def)

lemma request_reuses:
  assumes "ticket_cached c st" and "''Authorization'' \<notin> fst ` set hdrs"
  shows "reuses c st (snd (a_request net u (Ref (a_ticket c)) opts m b hdrs st))"
proof -
  have "map_of (fold (\<lambda>(k, v). AList.update k v) hdrs [(''Authorization'', x)]) ''Authorization'' = Some x" for x
    using assms(2)
  proof (induction hdrs arbitrary: x rule: rev_induct)
    case Nil
    show ?case by simp
  next
    case (snoc h hdrs)
    then show ?case by (cases h) (auto simp: update_conv')
  qed
  then show ?thesis
    using assms(1)
    by (simp add: a_request_cached[OF assms(1)[unfolded ticket_cached_def slot_id_def]]
          snd_fetch reuses_def keeps_def authorized_def slot_id_def)
qed

lemma snd_as_rejection: "snd (as_rejection p) = snd p"
  by (cases p; cases "fst p") (auto simp: as_rejection_def)

lemma snd_then_do:
  "snd (then_do p f) = (case fst p of Resolved x \<Rightarrow> snd (f x (snd p)) | Rejected e \<Rightarrow> snd p | Thrown e \<Rightarrow> snd p)"
  by (cases p; cases "fst p") (auto simp: then_do_def snd_as_rejection)

lemma stat_reuses:
  assumes c: "ticket_cached c st"
    and o: "options = None \<or> (\<exists>ov. options = Some ov \<and> (ov ''ticket'' = None \<or> ov ''ticket'' = Some (Ref (a_ticket c))))"
  shows "reuses c st (snd (alfresco_stat net c p options st))"
proof -
  let ?m = "assign ((obj_at (heap st) (a_opts c))(''ticket'' \<mapsto> Ref (a_ticket c))) [options]"
  let ?st0 = "st\<lparr>heap := heap st @ [?m]\<rparr>"
  have r0: "reuses c st ?st0"
    using clone_reuses[of c st options] by (simp add: a_cloneOptions_eq)
  have c0: "ticket_cached c ?st0" using c r0 by (rule reuses_cached)
  have at: "obj_at (heap st @ [?m]) (length (heap st)) = ?m"
    by (simp add: obj_at_def)
  have tk: "opt_get ?m ''ticket'' = Ref (a_ticket c)"
    using o by (rule merged_ticket)
  show ?thesis
  proof (cases "buildPath p ?m False")
    case (Inl e)
    then have "snd (alfresco_stat net c p options st) = ?st0"
      by (simp add: alfresco_stat_def a_cloneOptions_eq at Let_def)
    with r0 show ?thesis by simp
  next
    case (Inr bp)
    then have "snd (alfresco_stat net c p options st) =
        snd (a_request net (''/nodes/-my-?relativePath='' @ bp) (Ref (a_ticket c)) ?m None NoBody [] ?st0)"
      by (simp add: alfresco_stat_def a_cloneOptions_eq at tk Let_def snd_then_pure)
    moreover have "reuses c ?st0
        (snd (a_request net (''/nodes/-my-?relativePath='' @ bp) (Ref (a_ticket c)) ?m None NoBody [] ?st0))"
      using c0 by (rule request_reuses) simp
    ultimately show ?thesis using reuses_trans[OF c r0] by simp
  qed
qed

lemma typed_keeps_slot:
  "typed_options options \<Longrightarrow>
     options = None \<or> (\<exists>ov. options = Some ov \<and> (ov ''ticket'' = None \<or> ov ''ticket'' = Some (Ref t)))"
  by (cases options) auto

lemma presign_reuses:
  assumes c: "ticket_cached c st"
    and o: "options = None \<or> (\<exists>ov. options = Some ov \<and> (ov ''ticket'' = None \<or> ov ''ticket'' = Some (Ref (a_ticket c))))"
  shows "reuses c st (snd (alfresco_presign net now c p options st))"
proof -
  let ?m = "assign ((obj_at (heap st) (a_opts c))(''ticket'' \<mapsto> Ref (a_ticket c))) [options]"
  let ?st0 = "st\<lparr>heap := heap st @ [?m]\<rparr>"
  have r0: "reuses c st ?st0"
    using clone_reuses[of c st options] by (simp add: a_cloneOptions_eq)
  have c0: "ticket_cached c ?st0" using c r0 by (rule reuses_cached)
  have at: "obj_at (heap st @ [?m]) (length (heap st)) = ?m"
    by (simp add: obj_at_def)
  have tk: "opt_get ?m ''ticket'' = Ref (a_ticket c)"
    using o by (rule merged_ticket)
  then have tk': "?m ''ticket'' = Some (Ref (a_ticket c))"
    by (auto simp: opt_get_def split: option.splits)
  let ?s = "alfresco_stat net c p (Some ?m) ?st0"
  have r1: "reuses c ?st0 (snd ?s)"
    using c0 tk' by (intro stat_reuses) auto
  have c1: "ticket_cached c (snd ?s)" using c0 r1 by (rule reuses_cached)
  have r01: "reuses c st (snd ?s)" using c r0 r1 by (rule reuses_trans)
  let ?f = "\<lambda>stat. a_request net ''/shared-links'' (Ref (a_ticket c)) ?m (Some ''POST'')
                            (JsonText [(''nodeId'', Val (js_prop stat ''id'')),
                                       (''expiresAt'', opt_get ?m ''expiresAt'')])
                            [(''content-type'', ''application/json'')]"
  have eq: "snd (alfresco_presign net now c p options st) = snd (then_do ?s ?f)"
    by (simp add: alfresco_presign_def a_cloneOptions_eq at tk Let_def snd_then_pure)
  show ?thesis
  proof (cases "fst ?s")
    case (Resolved x)
    have "reuses c (snd ?s) (snd (?f x (snd ?s)))"
      using c1 by (rule request_reuses) simp
    with r01 c have "reuses c st (snd (?f x (snd ?s)))"
      using reuses_trans by blast
    with eq Resolved show ?thesis by (simp add: snd_then_do)
  next
    case (Rejected e)
    with eq r01 show ?thesis by (simp add: snd_then_do)
  next
    case (Thrown e)
    with eq r01 show ?thesis by (simp add: snd_then_do)
  qed
qed

lemma write_reuses:
  assumes c: "ticket_cached c st"
  shows "reuses c st (snd (alfresco_write net c p d options st))"
proof -
  let ?m = "assign ((obj_at (heap st) (a_opts c))(''ticket'' \<mapsto> Ref (a_ticket c))) [options]"
  let ?st0 = "st\<lparr>heap := heap st @ [?m]\<rparr>"
  have r0: "reuses c st ?st0"
    using clone_reuses[of c st options] by (simp add: a_cloneOptions_eq)
  have c0: "ticket_cached c ?st0" using c r0 by (rule reuses_cached)
  have at: "obj_at (heap st @ [?m]) (length (heap st)) = ?m"
    by (simp add: obj_at_def)
  have rq: "reuses c st (snd (a_request net u (Ref (a_ticket c)) ?m mth b [] ?st0))" for u mth b
    using reuses_trans[OF c r0] request_reuses[OF c0, of "[]"] by simp
  show ?thesis
    using r0 rq
    by (auto simp: alfresco_write_def a_cloneOptions_eq at Let_def snd_then_pure
             split: option.splits sum.splits)
qed

lemma delete_reuses:
  assumes c: "ticket_cached c st"
  shows "reuses c st (snd (alfresco_delete net c p options st))"
proof -
  let ?m = "assign ((obj_at (heap st) (a_opts c))(''ticket'' \<mapsto> Ref (a_ticket c))) [options]"
  let ?st0 = "st\<lparr>heap := heap st @ [?m]\<rparr>"
  have r0: "reuses c st ?st0"
    using clone_reuses[of c st options] by (simp add: a_cloneOptions_eq)
  have c0: "ticket_cached c ?st0" using c r0 by (rule reuses_cached)
  have rq: "reuses c st (snd (a_request net u (Ref (a_ticket c)) ob mth b [] ?st0))" for u mth b ob
    using reuses_trans[OF c r0] request_reuses[OF c0, of "[]"] by simp
  show ?thesis
    using rq by (simp add: alfresco_delete_def a_cloneOptions_eq Let_def snd_then_pure)
qed

lemma file_reuses:
  assumes "typed_options options"
  shows "reuses c st (snd (alfresco_file c p options st))
         \<and> handle_of c (snd (alfresco_file c p options st)) (fst (alfresco_file c p options st))"
  using clone_reuses[of c st options] merged_ticket[OF typed_keeps_slot[OF assms], of "obj_at (heap st) (a_opts c)" "a_ticket c"]
  by (simp add: alfresco_file_def a_cloneOptions_eq handle_of_def obj_at_def)

lemma handle_options_slot:
  "handle_of c st f \<Longrightarrow> (obj_at (heap st) (af_options f)) ''ticket'' = Some (Ref (a_ticket c))"
  by (auto simp: handle_of_def opt_get_def split: option.splits)

lemma af_stat_op_state:
  "snd (snd (af_stat_op net f st)) =
     (if truthy (af_stat f) then st
      else snd (alfresco_stat net (af_client f) (af_path f) (Some (obj_at (heap st) (af_options f))) st))"
  by (auto simp: af_stat_op_def split: prod.splits outcome.splits sum.splits)

lemma af_stat_op_handle:
  "af_client (fst (snd (af_stat_op net f st))) = af_client f
   \<and> af_ticket (fst (snd (af_stat_op net f st))) = af_ticket f
   \<and> af_options (fst (snd (af_stat_op net f st))) = af_options f"
  by (auto simp: af_stat_op_def split: prod.splits outcome.splits sum.splits)

lemma af_stat_op_reuses:
  assumes c: "ticket_cached c st" and h: "handle_of c st f"
  shows "reuses c st (snd (snd (af_stat_op net f st)))"
proof (cases "truthy (af_stat f)")
  case True
  then show ?thesis by (simp add: af_stat_op_state reuses_refl)
next
  case False
  have "af_client f = c" using h by (simp add: handle_of_def)
  moreover have "reuses c st (snd (alfresco_stat net c (af_path f) (Some (obj_at (heap st) (af_options f))) st))"
    using c handle_options_slot[OF h] by (intro stat_reuses) auto
  ultimately show ?thesis using False by (simp add: af_stat_op_state)
qed

lemma af_exists_same:
  "snd (af_exists net f st) = snd (af_stat_op net f st)"
  by (auto simp: af_exists_def split: prod.splits outcome.splits)

lemma af_presign_reuses:
  assumes c: "ticket_cached c st" and h: "handle_of c st f" and o: "typed_options options"
  shows "reuses c st (snd (af_presign net now f options st))"
proof -
  have f: "af_client f = c" "af_ticket f = a_ticket c" using h by (simp_all add: handle_of_def)
  let ?ov = "assign ((obj_at (heap st) (af_options f))(''ticket'' \<mapsto> Ref (a_ticket c))) [options]"
  have "opt_get ?ov ''ticket'' = Ref (a_ticket c)"
    using typed_keeps_slot[OF o] by (rule merged_ticket)
  then have "?ov ''ticket'' = Some (Ref (a_ticket c))"
    by (auto simp: opt_get_def split: option.splits)
  then have "reuses c st (snd (alfresco_presign net now c (af_path f) (Some ?ov) st))"
    using c by (intro presign_reuses) auto
  then show ?thesis by (simp add: af_presign_def f)
qed

lemma af_slice_reuses:
  assumes h: "handle_of c st f"
  shows "reuses c st (snd (af_slice f s e ct st))
         \<and> handle_of c (snd (af_slice f s e ct st)) (fst (af_slice f s e ct st))"
proof -
  have r: "af_options f < length (heap st)"
    using h by (auto simp: handle_of_def obj_at_def opt_get_def split: if_splits)
  have k: "keeps st (snd (af_slice f s e ct st))"
    using r by (auto simp: af_slice_def keeps_def obj_at_def nth_list_update)
  then have "reuses c st (snd (af_slice f s e ct st))"
    by (simp add: reuses_def af_slice_def)
  moreover have "handle_of c (snd (af_slice f s e ct st)) f"
    using h k by (rule keeps_handle)
  then have "handle_of c (snd (af_slice f s e ct st)) (fst (af_slice f s e ct st))"
    by (simp add: handle_of_def af_slice_def)
  ultimately show ?thesis by simp
qed

lemma af_open_handle:
  "af_client (fst (snd (af_open net nm f st))) = af_client f
   \<and> af_ticket (fst (snd (af_open net nm f st))) = af_ticket f
   \<and> af_options (fst (snd (af_open net nm f st))) = af_options f"
proof (cases "truthy nm")
  case True
  then show ?thesis by (simp add: af_open_def)
next
  case False
  obtain r f1 st1 where s: "af_stat_op net f st = (r, f1, st1)"
    by (cases "af_stat_op net f st") auto
  with af_stat_op_handle[of net f st]
  have "af_client f1 = af_client f \<and> af_ticket f1 = af_ticket f \<and> af_options f1 = af_options f"
    by simp
  with False s show ?thesis by (cases r) (simp_all add: af_open_def)
qed

lemma af_open_reuses:
  assumes c: "ticket_cached c st" and h: "handle_of c st f"
  shows "reuses c st (snd (snd (af_open net nm f st)))"
proof (cases "truthy nm")
  case True
  have "af_ticket f = a_ticket c" using h by (simp add: handle_of_def)
  with True show ?thesis
    using request_reuses[OF c, of "[]"] by (simp add: af_open_def)
next
  case False
  obtain r f1 st1 where s: "af_stat_op net f st = (r, f1, st1)"
    by (cases "af_stat_op net f st") auto
  have r1: "reuses c st st1"
    using af_stat_op_reuses[OF c h, of net] s by simp
  have c1: "ticket_cached c st1" using c r1 by (rule reuses_cached)
  have t1: "af_ticket f1 = a_ticket c"
    using af_stat_op_handle[of net f st] s h by (simp add: handle_of_def)
  show ?thesis
  proof (cases r)
    case (Resolved x)
    have "reuses c st1 (snd (a_request net (''/nodes/'' @ to_string (af_id f1) @ ''/content'')
                               (Ref (a_ticket c)) (obj_at (heap st1) (af_options f1)) None NoBody [] st1))"
      using c1 by (rule request_reuses) simp
    with c r1 have "reuses c st (snd (a_request net (''/nodes/'' @ to_string (af_id f1) @ ''/content'')
                               (Ref (a_ticket c)) (obj_at (heap st1) (af_options f1)) None NoBody [] st1))"
      by (rule reuses_trans)
    with False s Resolved t1 show ?thesis by (simp add: af_open_def)
  next
    case (Rejected e)
    with False s r1 show ?thesis by (simp add: af_open_def)
  next
    case (Thrown e)
    with False s r1 show ?thesis by (simp add: af_open_def)
  qed
qed

lemma af_delete_reuses:
  assumes c: "ticket_cached c st" and h: "handle_of c st f"
  shows "reuses c st (snd (af_delete net nm f st))"
proof -
  have "af_client f = c" using h by (simp add: handle_of_def)
  then show ?thesis using delete_reuses[OF c] by (simp add: af_delete_def)
qed

lemma reuses_handles:
  "list_all (handle_of c st) fs \<Longrightarrow> reuses c st st' \<Longrightarrow> list_all (handle_of c st') fs"
  by (auto simp: list_all_iff reuses_def intro: keeps_handle)

lemma run_call_reuses:
  assumes c: "ticket_cached c st" and hs: "list_all (handle_of c st) fs" and t: "typed_call call"
  shows "reuses c st (fst (run_call net c (st, fs) call))
         \<and> list_all (handle_of c (fst (run_call net c (st, fs) call))) (snd (run_call net c (st, fs) call))"
proof -
  have nth: "handle_of c st (fs ! i)" if "i < length fs" for i
    using hs that by (simp add: list_all_length)
  have upd: "list_all (handle_of c st') (fs[i := f'])"
    if "list_all (handle_of c st') fs" "handle_of c st' f'" for st' i f'
    using that by (auto simp: list_all_iff dest: set_update_subset_insert[THEN subsetD])
  show ?thesis
  proof (cases call)
    case (CallStat p options)
    with t c hs show ?thesis
      using stat_reuses[OF c typed_keeps_slot, of options net p] reuses_handles by auto
  next
    case (CallExists p options)
    with t c hs show ?thesis
      using stat_reuses[OF c typed_keeps_slot, of options net p] reuses_handles
      by (auto simp: alfresco_exists_def snd_catch_pure snd_then_pure)
  next
    case (CallSize p options)
    with t c hs show ?thesis
      using stat_reuses[OF c typed_keeps_slot, of options net p] reuses_handles
      by (auto simp: alfresco_size_def snd_then_pure)
  next
    case (CallPresign now p options)
    with t c hs show ?thesis
      using presign_reuses[OF c typed_keeps_slot, of options net now p] reuses_handles by auto
  next
    case (CallWrite p d options)
    with c hs show ?thesis
      using write_reuses[OF c, of net p d options] reuses_handles by auto
  next
    case (CallDelete p options)
    with c hs show ?thesis
      using delete_reuses[OF c, of net p options] reuses_handles by auto
  next
    case (CallFile p options)
    with t hs show ?thesis
      using file_reuses[of options c st p] reuses_handles by auto
  next
    case (FileStat i)
    show ?thesis
    proof (cases "i < length fs")
      case True
      let ?st' = "snd (snd (af_stat_op net (fs ! i) st))"
      let ?f' = "fst (snd (af_stat_op net (fs ! i) st))"
      have r: "reuses c st ?st'" using c nth[OF True] by (rule af_stat_op_reuses)
      then have hs': "list_all (handle_of c ?st') fs" using hs reuses_handles by blast
      then have "handle_of c ?st' (fs ! i)" using True by (simp add: list_all_length)
      then have "handle_of c ?st' ?f'"
        using af_stat_op_handle[of net "fs ! i" st] by (simp add: handle_of_def)
      with hs' have "list_all (handle_of c ?st') (fs[i := ?f'])" by (rule upd)
      with r True FileStat show ?thesis by simp
    next
      case False
      with FileStat hs show ?thesis by (simp add: reuses_refl)
    qed
  next
    case (FileExists i)
    show ?thesis
    proof (cases "i < length fs")
      case True
      let ?st' = "snd (snd (af_stat_op net (fs ! i) st))"
      let ?f' = "fst (snd (af_stat_op net (fs ! i) st))"
      have r: "reuses c st ?st'" using c nth[OF True] by (rule af_stat_op_reuses)
      then have hs': "list_all (handle_of c ?st') fs" using hs reuses_handles by blast
      then have "handle_of c ?st' (fs ! i)" using True by (simp add: list_all_length)
      then have "handle_of c ?st' ?f'"
        using af_stat_op_handle[of net "fs ! i" st] by (simp add: handle_of_def)
      with hs' have "list_all (handle_of c ?st') (fs[i := ?f'])" by (rule upd)
      with r True FileExists show ?thesis by (simp add: af_exists_same)
    next
      case False
      with FileExists hs show ?thesis by (simp add: reuses_refl)
    qed
  next
    case (FilePresign i now options)
    show ?thesis
    proof (cases "i < length fs")
      case True
      with t FilePresign have "reuses c st (snd (af_presign net now (fs ! i) options st))"
        using af_presign_reuses[OF c nth[OF True]] by simp
      with True FilePresign hs show ?thesis using reuses_handles by auto
    next
      case False
      with FilePresign hs show ?thesis by (simp add: reuses_refl)
    qed
  next
    case (FileOpen i nm)
    show ?thesis
    proof (cases "i < length fs")
      case True
      let ?st' = "snd (snd (af_open net nm (fs ! i) st))"
      let ?f' = "fst (snd (af_open net nm (fs ! i) st))"
      have r: "reuses c st ?st'" using c nth[OF True] by (rule af_open_reuses)
      then have hs': "list_all (handle_of c ?st') fs" using hs reuses_handles by blast
      then have "handle_of c ?st' (fs ! i)" using True by (simp add: list_all_length)
      then have "handle_of c ?st' ?f'"
        using af_open_handle[of net nm "fs ! i" st] by (simp add: handle_of_def)
      with hs' have "list_all (handle_of c ?st') (fs[i := ?f'])" by (rule upd)
      with r True FileOpen show ?thesis by simp
    next
      case False
      with FileOpen hs show ?thesis by (simp add: reuses_refl)
    qed
  next
    case (FileDelete i nm)
    show ?thesis
    proof (cases "i < length fs")
      case True
      have "reuses c st (snd (af_delete net nm (fs ! i) st))"
        using c nth[OF True] by (rule af_delete_reuses)
      with True FileDelete hs show ?thesis using reuses_handles by auto
    next
      case False
      with FileDelete hs show ?thesis by (simp add: reuses_refl)
    qed
  next
    case (FileSlice i s e ct)
    show ?thesis
    proof (cases "i < length fs")
      case True
      from af_slice_reuses[OF nth[OF True], of s e ct]
      show ?thesis using True FileSlice hs reuses_handles by auto
    next
      case False
      with FileSlice hs show ?thesis by (simp add: reuses_refl)
    qed
  qed
qed

lemma run_calls_reuses:
  assumes "ticket_cached c st" and "list_all (handle_of c st) fs" and "list_all typed_call calls"
  shows "reuses c st (fst (run_calls net c (st, fs) calls))"
  using assms
proof (induction calls arbitrary: st fs)
  case Nil
  show ?case by (simp add: run_calls_def reuses_refl)
next
  case (Cons call calls)
  obtain st1 fs1 where s1: "run_call net c (st, fs) call = (st1, fs1)"
    by (cases "run_call net c (st, fs) call") auto
  from Cons.prems have t: "typed_call call" "list_all typed_call calls" by simp_all
  from run_call_reuses[OF Cons.prems(1,2) t(1), of net] s1
  have r1: "reuses c st st1" and h1: "list_all (handle_of c st1) fs1" by simp_all
  have c1: "ticket_cached c st1" using Cons.prems(1) r1 by (rule reuses_cached)
  have "reuses c st1 (fst (run_calls net c (st1, fs1) calls))"
    using c1 h1 t(2) by (rule Cons.IH)
  with Cons.prems(1) r1 have "reuses c st (fst (run_calls net c (st1, fs1) calls))"
    by (rule reuses_trans)
  with s1 show ?case by (simp add: run_calls_def)
qed

lemma ticket_requests_append:
  "ticket_requests (st\<lparr>fetched := fetched st @ xs\<rparr>) =
     ticket_requests st @ map snd (filter (\<lambda>sr. fst sr = CreateTicket) xs)"
  by (simp add: ticket_requests_def)

lemma reuses_ticket_requests:
  assumes "reuses c st st'"
  shows "ticket_requests st' = ticket_requests st
         \<and> list_all (authorized (slot_id c st)) (drop (length (fetched st)) (fetched st'))"
proof -
  from assms obtain new where n: "fetched st' = fetched st @ new" "list_all (authorized (slot_id c st)) new"
    by (auto simp: reuses_def)
  then have "filter (\<lambda>sr. fst sr = CreateTicket) new = []"
    by (auto simp: filter_empty_conv list_all_iff authorized_def)
  with n show ?thesis by (simp add: ticket_requests_def)
qed

lemma request_acquires:
  assumes e: "\<not> ticket_cached c st" and r: "a_ticket c < length (heap st)"
    and n: "net (map snd (fetched st)) (ticket_request opts) = Some res" "rjson res = Some d"
      "\<not> nullish d" "\<not> nullish (js_prop d ''entry'')"
  shows "slot_id c (snd (a_request net u (Ref (a_ticket c)) opts m b hdrs st)) =
           Val (VStr (btoa (to_string (js_prop (js_prop d ''entry'') ''id''))))
         \<and> ticket_requests (snd (a_request net u (Ref (a_ticket c)) opts m b hdrs st)) =
           ticket_requests st @ [ticket_request opts]"
proof -
  let ?i = "VStr (btoa (to_string (js_prop (js_prop d ''entry'') ''id'')))"
  have ct: "fst (createTicket net opts st) = Resolved ?i"
    using n by (rule createTicket_answered)
  have e': "\<not> truthy_opt (opt_get (obj_at (heap st) (a_ticket c)) ''id'')"
    using e by (simp add: ticket_cached_def slot_id_def)
  note g = getTicket_acquires[OF e' ct]
  show ?thesis
    unfolding a_request_def g
    using r by (simp add: snd_fetch slot_id_def obj_at_def opt_get_def ticket_requests_def)
qed

text \<open>
  C7, as amended. A handle made by \<open>file\<close> holds the client's slot. A request that
  finds the slot without a ticket sends the credentials to the authentication
  endpoint and, when the answer carries an entry, stores the encoded entry id in
  the slot. Once the slot holds a ticket, any sequence of typed calls on the client
  and on its handles sends no further ticket request, leaves the slot as it is, and
  every request it sends carries the cached ticket.
\<close>

theorem ticket_slot_shared_and_reused:
  "(typed_options options \<longrightarrow>
      handle_of c (snd (alfresco_file c p options st)) (fst (alfresco_file c p options st)))
   \<and> (\<not> ticket_cached c st1 \<and> a_ticket c < length (heap st1)
        \<and> net1 (map snd (fetched st1)) (ticket_request opts) = Some res \<and> rjson res = Some d
        \<and> \<not> nullish d \<and> \<not> nullish (js_prop d ''entry'') \<longrightarrow>
      slot_id c (snd (a_request net1 u (Ref (a_ticket c)) opts m b hdrs st1)) =
        Val (VStr (btoa (to_string (js_prop (js_prop d ''entry'') ''id''))))
      \<and> ticket_requests (snd (a_request net1 u (Ref (a_ticket c)) opts m b hdrs st1)) =
        ticket_requests st1 @ [ticket_request opts])
   \<and> (ticket_cached c st2 \<and> list_all (handle_of c st2) fs \<and> list_all typed_call calls \<longrightarrow>
      ticket_requests (fst (run_calls net2 c (st2, fs) calls)) = ticket_requests st2
      \<and> slot_id c (fst (run_calls net2 c (st2, fs) calls)) = slot_id c st2
      \<and> list_all (authorized (slot_id c st2))
           (drop (length (fetched st2)) (fetched (fst (run_calls net2 c (st2, fs) calls)))))"
proof (intro conjI impI)
  assume "typed_options options"
  then show "handle_of c (snd (alfresco_file c p options st)) (fst (alfresco_file c p options st))"
    using file_reuses by blast
next
  assume a: "\<not> ticket_cached c st1 \<and> a_ticket c < length (heap st1)
        \<and> net1 (map snd (fetched st1)) (ticket_request opts) = Some res \<and> rjson res = Some d
        \<and> \<not> nullish d \<and> \<not> nullish (js_prop d ''entry'')"
  then have "slot_id c (snd (a_request net1 u (Ref (a_ticket c)) opts m b hdrs st1)) =
        Val (VStr (btoa (to_string (js_prop (js_prop d ''entry'') ''id''))))
      \<and> ticket_requests (snd (a_request net1 u (Ref (a_ticket c)) opts m b hdrs st1)) =
        ticket_requests st1 @ [ticket_request opts]"
    using request_acquires[of c st1 net1 opts res d u m b hdrs] by blast
  then show "slot_id c (snd (a_request net1 u (Ref (a_ticket c)) opts m b hdrs st1)) =
        Val (VStr (btoa (to_string (js_prop (js_prop d ''entry'') ''id''))))"
    and "ticket_requests (snd (a_request net1 u (Ref (a_ticket c)) opts m b hdrs st1)) =
        ticket_requests st1 @ [ticket_request opts]"
    by simp_all
next
  assume a: "ticket_cached c st2 \<and> list_all (handle_of c st2) fs \<and> list_all typed_call calls"
  then have r: "reuses c st2 (fst (run_calls net2 c (st2, fs) calls))"
    by (intro run_calls_reuses) simp_all
  from reuses_ticket_requests[OF r] reuses_slot[OF _ r] a
  show "ticket_requests (fst (run_calls net2 c (st2, fs) calls)) = ticket_requests st2"
    and "slot_id c (fst (run_calls net2 c (st2, fs) calls)) = slot_id c st2"
    and "list_all (authorized (slot_id c st2))
           (drop (length (fetched st2)) (fetched (fst (run_calls net2 c (st2, fs) calls))))"
    by simp_all
qed

lemma btoa_example: "btoa ''TICKET_1'' = ''VElDS0VUXzE=''"
  by (simp add: btoa_def b64_def)

theorem ticket_slot_shared_and_reused_witness:
  "typed_options None
   \<and> handle_of af_client0 (snd (alfresco_file af_client0 (PathStr ''123.json'') None af_state))
        (fst (alfresco_file af_client0 (PathStr ''123.json'') None af_state))
   \<and> \<not> ticket_cached af_client0 af_state
   \<and> a_ticket af_client0 < length (heap af_state)
   \<and> net_alfresco (map snd (fetched af_state)) (ticket_request af_config) =
        Some (Response 201 [] (Some (VObj [(''entry'', VObj [(''id'', VStr ''TICKET_1'')])])))
   \<and> slot_id af_client0
        (snd (a_request net_alfresco ''/nodes/n-1'' (Ref (a_ticket af_client0)) af_config (Some ''DELETE'') NoBody [] af_state))
      = Val (VStr ''VElDS0VUXzE='')
   \<and> ticket_requests
        (snd (a_request net_alfresco ''/nodes/n-1'' (Ref (a_ticket af_client0)) af_config (Some ''DELETE'') NoBody [] af_state))
      = [ticket_request af_config]
   \<and> ticket_cached af_client0 af_ready
   \<and> list_all typed_call
        [CallFile (PathStr ''123.json'') None, FileStat 0, FileSlice 0 (VNum 0) (VNum 4) VUndef,
         CallPresign 1700000000000 (PathStr ''123.json'') None, FileOpen 0 VUndef,
         CallDelete (PathStr ''n-1'') None]
   \<and> ticket_requests (fst (run_calls net_denied af_client0 (af_ready, [])
        [CallFile (PathStr ''123.json'') None, FileStat 0, FileSlice 0 (VNum 0) (VNum 4) VUndef,
         CallPresign 1700000000000 (PathStr ''123.json'') None, FileOpen 0 VUndef,
         CallDelete (PathStr ''n-1'') None])) = []
   \<and> slot_id af_client0 (fst (run_calls net_denied af_client0 (af_ready, [])
        [CallFile (PathStr ''123.json'') None, FileStat 0, FileSlice 0 (VNum 0) (VNum 4) VUndef,
         CallPresign 1700000000000 (PathStr ''123.json'') None, FileOpen 0 VUndef,
         CallDelete (PathStr ''n-1'') None]))
      = Val (VStr ''VElDS0VUXzE='')"
proof -
  have e: "\<not> ticket_cached af_client0 af_state" "a_ticket af_client0 < length (heap af_state)"
    "ticket_requests af_state = []"
    by (simp_all add: ticket_cached_def slot_id_def af_state_def af_client0_def obj_at_def opt_get_def
          ticket_requests_def)
  have n: "net_alfresco (map snd (fetched af_state)) (ticket_request af_config) =
        Some (Response 201 [] (Some (VObj [(''entry'', VObj [(''id'', VStr ''TICKET_1'')])])))"
    by (simp add: net_alfresco_def ticket_request_def)
  have d: "\<not> nullish (VObj [(''entry'', VObj [(''id'', VStr ''TICKET_1'')])])"
    "\<not> nullish (js_prop (VObj [(''entry'', VObj [(''id'', VStr ''TICKET_1'')])]) ''entry'')"
    "to_string (js_prop (js_prop (VObj [(''entry'', VObj [(''id'', VStr ''TICKET_1'')])]) ''entry'') ''id'') = ''TICKET_1''"
    by (simp_all add: nullish_def)
  have r: "ticket_cached af_client0 af_ready" "slot_id af_client0 af_ready = Val (VStr ''VElDS0VUXzE='')"
    "ticket_requests af_ready = []"
    by (simp_all add: ticket_cached_def slot_id_def af_ready_def af_client0_def obj_at_def opt_get_def
          ticket_requests_def)
  show ?thesis
    using e n d r
      ticket_slot_shared_and_reused[of None af_client0 "PathStr ''123.json''" af_state af_state
        net_alfresco af_config "Response 201 [] (Some (VObj [(''entry'', VObj [(''id'', VStr ''TICKET_1'')])]))"
        "VObj [(''entry'', VObj [(''id'', VStr ''TICKET_1'')])]"
        "''/nodes/n-1''" "Some ''DELETE''" NoBody "[]" af_ready "[]"
        "[CallFile (PathStr ''123.json'') None, FileStat 0, FileSlice 0 (VNum 0) (VNum 4) VUndef,
          CallPresign 1700000000000 (PathStr ''123.json'') None, FileOpen 0 VUndef,
         CallDelete (PathStr ''n-1'') None]"
        net_denied]
    by (simp add: btoa_example)
qed

text \<open>
  C7 as stated fails: against a server that refuses the credentials no ticket is
  stored, and two \<open>stat\<close> calls in a row each send a ticket request.
\<close>

lemma createTicket_denied: "fst (createTicket net_denied opts st) = Rejected TypeError"
  by (simp add: createTicket_def then_pure_def fetch_def net_denied_def res_json_def get_prop_def nullish_def)

lemma af_stat_denied:
  assumes h: "heap st = [af_config, Map.empty] @ rest"
  shows "fst (alfresco_stat net_denied af_client0 (PathStr ''123.json'') None st) = Rejected TypeError
         \<and> heap (snd (alfresco_stat net_denied af_client0 (PathStr ''123.json'') None st)) =
           [af_config, Map.empty] @ (rest @ [af_config(''ticket'' \<mapsto> Ref (Suc 0))])
         \<and> ticket_requests (snd (alfresco_stat net_denied af_client0 (PathStr ''123.json'') None st)) =
           ticket_requests st @ [ticket_request (af_config(''ticket'' \<mapsto> Ref (Suc 0)))]"
proof -
  let ?merged = "af_config(''ticket'' \<mapsto> Ref (Suc 0))"
  let ?st0 = "st\<lparr>heap := heap st @ [?merged]\<rparr>"
  have m: "assign ((obj_at (heap st) 0)(''ticket'' \<mapsto> Ref (Suc 0))) [None] = ?merged"
    using h by (auto simp: assign_def obj_at_def)
  have cl: "a_cloneOptions af_client0 [None] st = (length (heap st), ?st0)"
    using m by (simp add: a_cloneOptions_def alloc_def af_client0_def)
  have at: "obj_at (heap st @ [?merged]) (length (heap st)) = ?merged"
    by (simp add: obj_at_def)
  obtain bp where bp: "buildPath (PathStr ''123.json'') ?merged False = Inr bp"
    using buildPath_ok[of ?merged] by (auto simp: af_config_def opt_get_def)
  have tk: "opt_get ?merged ''ticket'' = Ref (Suc 0)"
    by (simp add: opt_get_def)
  have empty: "\<not> truthy_opt (opt_get (obj_at (heap ?st0) (Suc 0)) ''id'')"
    using h by (simp add: obj_at_def opt_get_def)
  note g = getTicket_fails[OF empty createTicket_denied]
  have rq: "a_request net_denied (''/nodes/-my-?relativePath='' @ bp) (Ref (Suc 0)) ?merged None NoBody [] ?st0
              = (Rejected TypeError, ?st0\<lparr>fetched := fetched ?st0 @ [(CreateTicket, ticket_request ?merged)]\<rparr>)"
    unfolding a_request_def g by simp
  have "alfresco_stat net_denied af_client0 (PathStr ''123.json'') None st =
          then_pure (then_pure
            (a_request net_denied (''/nodes/-my-?relativePath='' @ bp) (Ref (Suc 0)) ?merged None NoBody [] ?st0)
            res_json) normalize_entry"
    by (simp add: alfresco_stat_def cl at bp tk Let_def)
  then have "alfresco_stat net_denied af_client0 (PathStr ''123.json'') None st =
          (Rejected TypeError, ?st0\<lparr>fetched := fetched ?st0 @ [(CreateTicket, ticket_request ?merged)]\<rparr>)"
    unfolding rq by (simp add: then_pure_def)
  then show ?thesis
    using h by (simp add: ticket_requests_def)
qed

theorem ticket_requested_again_counterexample:
  "length (ticket_requests (fst (run_calls net_denied af_client0 (af_state, [])
      [CallStat (PathStr ''123.json'') None, CallStat (PathStr ''123.json'') None]))) = 2"
proof -
  let ?s1 = "snd (alfresco_stat net_denied af_client0 (PathStr ''123.json'') None af_state)"
  let ?s2 = "snd (alfresco_stat net_denied af_client0 (PathStr ''123.json'') None ?s1)"
  have h0: "heap af_state = [af_config, Map.empty] @ []" "ticket_requests af_state = []"
    by (simp_all add: af_state_def ticket_requests_def)
  note s1 = af_stat_denied[OF h0(1), THEN conjunct2]
  from s1 have h1: "heap ?s1 = [af_config, Map.empty] @ ([] @ [af_config(''ticket'' \<mapsto> Ref (Suc 0))])"
    by simp
  note s2 = af_stat_denied[OF h1, THEN conjunct2]
  have "length (ticket_requests ?s2) = 2"
    using s1 s2 h0(2) by simp
  then show ?thesis by (simp add: run_calls_def)
qed

subsection \<open>The unconditional properties on the example runs\<close>

theorem exists_follows_stat_witness:
  "fst (gitlab_exists net_gitlab decimal_number gl_client (PathStr ''a.txt'') None gl_state) = Resolved (VBool True)
   \<and> fst (alfresco_exists net_alfresco af_client0 (PathStr ''123.json'') None af_state) = Resolved (VBool True)
   \<and> fst (alfresco_stat net_denied af_client0 (PathStr ''123.json'') None af_state) = Rejected TypeError
   \<and> fst (alfresco_exists net_denied af_client0 (PathStr ''123.json'') None af_state) = Resolved (VBool False)"
proof -
  have h0: "heap af_state = [af_config, Map.empty] @ []"
    by (simp add: af_state_def)
  show ?thesis
    using gl_stat_eval af_stat_eval af_stat_denied[OF h0, THEN conjunct1]
      exists_follows_stat[of net_gitlab decimal_number gl_client "PathStr ''a.txt''" None gl_state
        net_alfresco af_client0 "PathStr ''123.json''" None af_state]
      exists_follows_stat[of net_gitlab decimal_number gl_client "PathStr ''a.txt''" None gl_state
        net_denied af_client0 "PathStr ''123.json''" None af_state]
    by simp
qed

theorem size_is_stat_size_witness:
  "fst (gitlab_size net_gitlab decimal_number gl_client (PathStr ''a.txt'') None gl_state) = Resolved (VNum 12)
   \<and> fst (alfresco_size net_alfresco af_client0 (PathStr ''123.json'') None af_state) = Resolved (VNum 7)"
  using gl_stat_eval af_stat_eval
    size_is_stat_size[of net_gitlab decimal_number gl_client "PathStr ''a.txt''" None gl_state
      net_alfresco af_client0 "PathStr ''123.json''" None af_state]
  by simp

theorem cloneOptions_fresh_merge_witness:
  "fst (g_cloneOptions gl_client [Some [''branch'' \<mapsto> Val (VStr ''dev'')]] gl_state) = 1
   \<and> heap (snd (g_cloneOptions gl_client [Some [''branch'' \<mapsto> Val (VStr ''dev'')]] gl_state)) ! 0 = gl_config
   \<and> obj_at (heap (snd (g_cloneOptions gl_client [Some [''branch'' \<mapsto> Val (VStr ''dev'')]] gl_state))) 1 ''branch''
        = Some (Val (VStr ''dev''))
   \<and> obj_at (heap (snd (g_cloneOptions gl_client [Some [''branch'' \<mapsto> Val (VStr ''dev'')]] gl_state))) 1 ''bucket''
        = Some (Val (VStr ''team/docs''))
   \<and> obj_at (heap (snd (a_cloneOptions af_client0 [Some [''bucket'' \<mapsto> Val (VStr ''other'')]] af_state))) 2 ''bucket''
        = Some (Val (VStr ''other''))
   \<and> obj_at (heap (snd (a_cloneOptions af_client0 [Some [''bucket'' \<mapsto> Val (VStr ''other'')]] af_state))) 2 ''ticket''
        = Some (Ref 1)"
proof -
  let ?g = "g_cloneOptions gl_client [Some [''branch'' \<mapsto> Val (VStr ''dev'')]] gl_state"
  let ?a = "a_cloneOptions af_client0 [Some [''bucket'' \<mapsto> Val (VStr ''other'')]] af_state"
  have g: "obj_at (heap gl_state) (g_opts gl_client) = gl_config" "length (heap gl_state) = 1"
    "heap gl_state = [gl_config]" "gl_config ''bucket'' = Some (Val (VStr ''team/docs''))"
    by (simp_all add: gl_state_def gl_client_def gl_config_def obj_at_def)
  have a: "obj_at (heap af_state) (a_opts af_client0) = af_config" "length (heap af_state) = 2"
    "a_ticket af_client0 = 1"
    by (simp_all add: af_state_def af_client0_def obj_at_def)
  note th = cloneOptions_fresh_merge[where gc = gl_client and st = gl_state
            and options = "Some [''branch'' \<mapsto> Val (VStr ''dev'')]"
            and ac = af_client0 and ast = af_state
            and aoptions = "Some [''bucket'' \<mapsto> Val (VStr ''other'')]"]
  from th have g1: "fst ?g = 1"
    and g3: "obj_at (heap (snd ?g)) 1 k =
               (case [''branch'' \<mapsto> Val (VStr ''dev'')] k of Some v \<Rightarrow> Some v | None \<Rightarrow> gl_config k)" for k
    by (auto simp: g(1,2) split: prod.splits)
  from th have "take (length (heap gl_state)) (heap (snd ?g)) = heap gl_state"
    by (auto split: prod.splits)
  then have g2: "take 1 (heap (snd ?g)) = [gl_config]"
    by (simp add: g(3))
  from th have a3: "obj_at (heap (snd ?a)) 2 k =
               (case [''bucket'' \<mapsto> Val (VStr ''other'')] k of Some v \<Rightarrow> Some v
                | None \<Rightarrow> (af_config(''ticket'' \<mapsto> Ref 1)) k)" for k
    by (auto simp: a split: prod.splits)
  from g2 have "heap (snd ?g) ! 0 = gl_config"
    by (metis nth_Cons_0 nth_take zero_less_one)
  with g1 g3[of "''branch''"] g3[of "''bucket''"] a3[of "''bucket''"] a3[of "''ticket''"] g(4)
  show ?thesis by simp
qed

end
